theory Spec2Isabelle
  imports Main "HOL-Library.Multiset"
begin

section \<open>Errors\<close>

text \<open>
  Go \<open>error\<close> values as data.  \<open>InvalidExpression\<close> is the error of the schedule
  parser (it carries the rejected text), \<open>NotFound\<close> is the error of
  \<open>getRepository\<close> (\<open>fmt.Errorf("repository does not exist")\<close>), and
  \<open>Failure\<close> is any other error, with its message.
\<close>

datatype error = InvalidExpression string | NotFound | Failure string

fun Error :: "error \<Rightarrow> string" where
  "Error (InvalidExpression m) = m"
| "Error NotFound = ''repository does not exist''"
| "Error (Failure m) = m"

section \<open>Schedule expressions\<close>

text \<open>
  Modelled from the spec: the schedule-expression parser.  The scheduler of
  \<open>pkg/scheduler\<close> hands the schedule string to the cron library
  (\<open>cron.AddFunc\<close>), whose parser is not among the sources.  The definitions of
  this section follow sections 3, 4.1 and 6 of the specification: five
  whitespace-separated fields (minute, hour, day-of-month, month, day-of-week), or
  six with a leading seconds field; each field a comma-separated set of items; each
  item a wildcard, an integer literal, a range \<open>a-b\<close> (\<open>Span\<close>) or a step \<open>base/n\<close>; every
  value of a field has to lie in the field's domain.
\<close>

datatype matcher = Wildcard | Literal nat | Span nat nat | Step matcher nat

type_synonym ScheduleExpression = "matcher list list"

definition is_digit :: "char \<Rightarrow> bool" where
  "is_digit c = (48 \<le> (of_char c :: nat) \<and> (of_char c :: nat) \<le> 57)"

definition digit_val :: "char \<Rightarrow> nat" where
  "digit_val c = of_char c - 48"

definition digits_val :: "string \<Rightarrow> nat" where
  "digits_val s = foldl (\<lambda>n c. 10 * n + digit_val c) 0 s"

definition parse_nat :: "string \<Rightarrow> nat option" where
  "parse_nat s = (if s \<noteq> [] \<and> list_all is_digit s then Some (digits_val s) else None)"

text \<open>Splitting at every separator character, as \<open>strings.Split\<close> does: the empty
  string gives one empty piece.\<close>

fun split_when :: "(char \<Rightarrow> bool) \<Rightarrow> string \<Rightarrow> string list" where
  "split_when p [] = [[]]"
| "split_when p (c # cs) =
     (if p c then [] # split_when p cs
      else (case split_when p cs of
              [] \<Rightarrow> [[c]]
            | w # ws \<Rightarrow> (c # w) # ws))"

definition split_on :: "char \<Rightarrow> string \<Rightarrow> string list" where
  "split_on d s = split_when (\<lambda>c. c = d) s"

definition is_space :: "char \<Rightarrow> bool" where
  "is_space c = (c = CHR '' '' \<or> c = CHR 0x09)"

definition split_fields :: "string \<Rightarrow> string list" where
  "split_fields s = filter (\<lambda>w. w \<noteq> []) (split_when is_space s)"

definition parse_base :: "string \<Rightarrow> matcher option" where
  "parse_base s =
     (if s = ''*'' then Some Wildcard
      else (case split_on (CHR ''-'') s of
              [a] \<Rightarrow> map_option Literal (parse_nat a)
            | [a, b] \<Rightarrow>
                (case parse_nat a of
                   None \<Rightarrow> None
                 | Some x \<Rightarrow> map_option (Span x) (parse_nat b))
            | _ \<Rightarrow> None))"

definition parse_item :: "string \<Rightarrow> matcher option" where
  "parse_item s =
     (case split_on (CHR ''/'') s of
        [b] \<Rightarrow> parse_base b
      | [b, n] \<Rightarrow>
          (case parse_base b of
             None \<Rightarrow> None
           | Some m \<Rightarrow> map_option (Step m) (parse_nat n))
      | _ \<Rightarrow> None)"

fun in_domain :: "nat \<Rightarrow> nat \<Rightarrow> matcher \<Rightarrow> bool" where
  "in_domain lo hi Wildcard = True"
| "in_domain lo hi (Literal n) = (lo \<le> n \<and> n \<le> hi)"
| "in_domain lo hi (Span a b) = (lo \<le> a \<and> a \<le> hi \<and> lo \<le> b \<and> b \<le> hi)"
| "in_domain lo hi (Step m n) = (in_domain lo hi m \<and> lo \<le> n \<and> n \<le> hi)"

fun parse_items :: "nat \<Rightarrow> nat \<Rightarrow> string list \<Rightarrow> matcher list option" where
  "parse_items lo hi [] = Some []"
| "parse_items lo hi (s # ss) =
     (case parse_item s of
        None \<Rightarrow> None
      | Some m \<Rightarrow>
          (if in_domain lo hi m then map_option ((#) m) (parse_items lo hi ss)
           else None))"

definition parse_field :: "nat \<times> nat \<Rightarrow> string \<Rightarrow> matcher list option" where
  "parse_field d s = parse_items (fst d) (snd d) (split_on (CHR '','') s)"

fun parse_fields :: "(nat \<times> nat) list \<Rightarrow> string list \<Rightarrow> ScheduleExpression option" where
  "parse_fields [] [] = Some []"
| "parse_fields (d # ds) (s # ss) =
     (case parse_field d s of
        None \<Rightarrow> None
      | Some f \<Rightarrow> map_option ((#) f) (parse_fields ds ss))"
| "parse_fields _ _ = None"

definition domains :: "(nat \<times> nat) list" where
  "domains = [(0, 59), (0, 23), (1, 31), (1, 12), (0, 6)]"

text \<open>Modelled from the spec: \<open>parse\<close>, the parser of the cron library that is not
  among the sources (section 4.1: it validates the field count and each field, and
  fails with \<open>InvalidExpression\<close>).\<close>

definition parse :: "string \<Rightarrow> error + ScheduleExpression" where
  "parse expr =
     (let fs = split_fields expr;
          r = (if length fs = 5 then parse_fields domains fs
               else if length fs = 6 then parse_fields ((0, 59) # domains) fs
               else None)
      in case r of None \<Rightarrow> Inl (InvalidExpression expr) | Some e \<Rightarrow> Inr e)"

section \<open>The cron collaborator\<close>

text \<open>
  Modelled from the spec: the cron object inside the scheduler
  (\<open>cron.New\<close>, \<open>AddFunc\<close>, \<open>Remove\<close>); the library is not among the sources.
  Following section 3 of the specification (a task entry is created by a
  registration, discarded and its pending fire cancelled by a removal), the cron
  object is the list of pending entries together with the last identifier handed
  out.  \<open>AddFunc\<close> parses the schedule string with the parser it is given; on a
  parse error it returns the error and adds nothing, otherwise it appends an entry
  under a fresh identifier.  \<open>Remove\<close> drops the entry with the given identifier.
  The job of an entry is the closure that \<open>AddTask\<close> builds, which captures the key
  (for the log line) and the action.
\<close>

record ('s, 'a) Entry =
  EntryID :: int
  EntrySchedule :: 's
  Job :: "string \<times> 'a"

record ('s, 'a) Cron =
  entries :: "('s, 'a) Entry list"
  nextID :: int

definition cron_New :: "('s, 'a) Cron" where
  "cron_New = \<lparr>entries = [], nextID = 0\<rparr>"

text \<open>Modelled from the spec: \<open>AddFunc\<close> of the cron library, which is not among
  the sources (section 4.2: registration parses the expression and fails on a
  malformed one, otherwise the entry takes effect).\<close>

definition cron_AddFunc ::
  "(string \<Rightarrow> error + 's) \<Rightarrow> ('s, 'a) Cron \<Rightarrow> string \<Rightarrow> string \<times> 'a
     \<Rightarrow> error + (int \<times> ('s, 'a) Cron)" where
  "cron_AddFunc prs c spec job =
     (case prs spec of
        Inl e \<Rightarrow> Inl e
      | Inr sched \<Rightarrow>
          (let i = nextID c + 1
           in Inr (i, \<lparr>entries = entries c @ [\<lparr>EntryID = i, EntrySchedule = sched, Job = job\<rparr>],
                       nextID = i\<rparr>)))"

text \<open>Modelled from the spec: \<open>Remove\<close> of the cron library, which is not among
  the sources (section 4.2: a removal cancels the pending fire of the entry).\<close>

definition cron_Remove :: "('s, 'a) Cron \<Rightarrow> int \<Rightarrow> ('s, 'a) Cron" where
  "cron_Remove c i = c\<lparr>entries := filter (\<lambda>e. EntryID e \<noteq> i) (entries c)\<rparr>"

section \<open>The scheduler\<close>

text \<open>
  \<open>pkg/scheduler\<close>: a task is the cron identifier, the schedule string and the
  action; the scheduler is the cron object and the map from key to task.  Every
  method runs under the scheduler's mutex, so each is one atomic state
  transformer.  Actions are opaque callables, a type parameter here.
\<close>

record 'a Task =
  ID :: int
  Schedule :: string
  Action :: 'a

record ('s, 'a) Scheduler =
  cron :: "('s, 'a) Cron"
  tasks :: "string \<rightharpoonup> 'a Task"

definition NewScheduler :: "('s, 'a) Scheduler" where
  "NewScheduler = \<lparr>cron = cron_New, tasks = Map.empty\<rparr>"

text \<open>The first step of \<open>AddTask\<close> and the whole of \<open>RemoveTask\<close>: if the key has a
  task, remove its cron entry and delete the key.\<close>

definition RemoveTask :: "('s, 'a) Scheduler \<Rightarrow> string \<Rightarrow> ('s, 'a) Scheduler" where
  "RemoveTask s key =
     (case tasks s key of
        Some task \<Rightarrow> s\<lparr>cron := cron_Remove (cron s) (ID task), tasks := (tasks s)(key := None)\<rparr>
      | None \<Rightarrow> s)"

definition AddTask ::
  "(string \<Rightarrow> error + 's) \<Rightarrow> ('s, 'a) Scheduler \<Rightarrow> string \<Rightarrow> string \<Rightarrow> 'a
     \<Rightarrow> error option \<times> ('s, 'a) Scheduler" where
  "AddTask prs s key schedule action =
     (let s1 = (case tasks s key of
                  Some existingTask \<Rightarrow>
                    s\<lparr>cron := cron_Remove (cron s) (ID existingTask),
                      tasks := (tasks s)(key := None)\<rparr>
                | None \<Rightarrow> s)
      in case cron_AddFunc prs (cron s1) schedule (key, action) of
           Inl err \<Rightarrow> (Some err, s1)
         | Inr (i, c) \<Rightarrow>
             (None, s1\<lparr>cron := c,
                        tasks := (tasks s1)(key \<mapsto> \<lparr>ID = i, Schedule = schedule, Action = action\<rparr>)\<rparr>))"

definition UpdateTask ::
  "(string \<Rightarrow> error + 's) \<Rightarrow> ('s, 'a) Scheduler \<Rightarrow> string \<Rightarrow> string \<Rightarrow> 'a
     \<Rightarrow> error option \<times> ('s, 'a) Scheduler" where
  "UpdateTask prs s key schedule action = AddTask prs s key schedule action"

text \<open>Sequences of scheduler calls.\<close>

datatype 'a sched_op =
  OpAdd string string 'a
| OpUpdate string string 'a
| OpRemove string

fun apply_sched_op ::
  "(string \<Rightarrow> error + 's) \<Rightarrow> ('s, 'a) Scheduler \<Rightarrow> 'a sched_op \<Rightarrow> ('s, 'a) Scheduler" where
  "apply_sched_op prs s (OpAdd k sch a) = snd (AddTask prs s k sch a)"
| "apply_sched_op prs s (OpUpdate k sch a) = snd (UpdateTask prs s k sch a)"
| "apply_sched_op prs s (OpRemove k) = RemoveTask s k"

definition run_sched ::
  "(string \<Rightarrow> error + 's) \<Rightarrow> 'a sched_op list \<Rightarrow> ('s, 'a) Scheduler" where
  "run_sched prs ops = foldl (apply_sched_op prs) NewScheduler ops"

text \<open>The cron entries that belong to a key.\<close>

definition entries_of :: "('s, 'a) Scheduler \<Rightarrow> string \<Rightarrow> ('s, 'a) Entry list" where
  "entries_of s k = filter (\<lambda>e. fst (Job e) = k) (entries (cron s))"

text \<open>The invariant that ties the cron entries to the task map: entry identifiers are
  pairwise different and not above the last one handed out, and the entries that carry
  a key are exactly the one entry of the task registered under that key.\<close>

definition sched_inv :: "('s, 'a) Scheduler \<Rightarrow> bool" where
  "sched_inv s =
     (distinct (map EntryID (entries (cron s))) \<and>
      (\<forall>e \<in> set (entries (cron s)). EntryID e \<le> nextID (cron s)) \<and>
      (\<forall>k. map EntryID (entries_of s k) =
            (case tasks s k of None \<Rightarrow> [] | Some t \<Rightarrow> [ID t])))"

section \<open>HTTP responses\<close>

text \<open>What a handler leaves in the \<open>http.ResponseWriter\<close>: the status code and the
  body.  \<open>http.Error\<close> writes the message followed by a newline.\<close>

record Response =
  Code :: nat
  Body :: string

definition http_Error :: "string \<Rightarrow> nat \<Rightarrow> Response" where
  "http_Error msg code = \<lparr>Code = code, Body = msg @ [CHR 0x0A]\<rparr>"

definition WriteHeader :: "nat \<Rightarrow> Response" where
  "WriteHeader code = \<lparr>Code = code, Body = []\<rparr>"

section \<open>The application state and the repository registry\<close>

text \<open>
  \<open>state.State\<close> as far as the handlers below use it: the registry
  \<open>Repositories\<close> (a Go map from path to repository), the scheduler, the settings,
  and the agents and workflows that are rebuilt from the settings.  Every access to
  the registry happens under \<open>state.State.Mu\<close>, so a lookup, an insert and a delete
  are atomic steps and a race between handlers is an interleaving of these steps.
  The registry holds pointers in the source; the handlers modelled here only read the
  path of a repository and replace its status, so a repository is held by value.
  The settings type \<open>'c\<close> and the type \<open>'w\<close> of agents and workflows are opaque.
\<close>

record Repository =
  Path :: string
  RepoSchedule :: string
  Status :: string

record ('s, 'a, 'c, 'w) State =
  Repositories :: "string \<rightharpoonup> Repository"
  Scheduler :: "('s, 'a) Scheduler"
  Settings :: 'c
  Agents :: 'w
  Workflows :: 'w

text \<open>
  The collaborators outside the sources, as parameters: \<open>filepath.Abs\<close>,
  \<open>repo.UpdateStatus\<close> (the repository with its new status, or an error),
  \<open>config.GetHomeConfigPath\<close> (the path it returns and its error),
  \<open>config.SaveConfig\<close> (it serialises the current state), \<open>os.UserHomeDir\<close>,
  \<open>filepath.Join\<close>, the constant \<open>config.ConfigPath\<close>, and
  \<open>state.State.UpdateAgents\<close> and \<open>UpdateWorkflows\<close>, which read the settings and
  return the rebuilt agents or workflows together with their error.
\<close>

record ('s, 'a, 'c, 'w) Env =
  Abs :: "string \<Rightarrow> error + string"
  UpdateStatus :: "Repository \<Rightarrow> error + Repository"
  GetHomeConfigPath :: "string \<times> error option"
  SaveConfig :: "string \<Rightarrow> ('s, 'a, 'c, 'w) State \<Rightarrow> error option"
  UserHomeDir :: "error + string"
  Join :: "string \<Rightarrow> string \<Rightarrow> string"
  ConfigPath :: string
  UpdateAgents :: "'c \<Rightarrow> 'w \<Rightarrow> error option \<times> 'w"
  UpdateWorkflows :: "'c \<Rightarrow> 'w \<Rightarrow> error option \<times> 'w"

definition getRepository ::
  "('s, 'a, 'c, 'w) Env \<Rightarrow> ('s, 'a, 'c, 'w) State \<Rightarrow> string \<Rightarrow> error + Repository" where
  "getRepository env st path =
     (case Abs env path of
        Inl err \<Rightarrow> Inl err
      | Inr absPath \<Rightarrow>
          (case Repositories st absPath of
             None \<Rightarrow> Inl NotFound
           | Some repo \<Rightarrow> Inr repo))"

definition updateRepo ::
  "('s, 'a, 'c, 'w) Env \<Rightarrow> ('s, 'a, 'c, 'w) State \<Rightarrow> Repository \<Rightarrow> ('s, 'a, 'c, 'w) State" where
  "updateRepo env st repo =
     (case UpdateStatus env repo of
        Inl err \<Rightarrow> st
      | Inr repo' \<Rightarrow> st\<lparr>Repositories := (Repositories st)(Path repo' \<mapsto> repo')\<rparr>)"

definition HandleDeleteRepository ::
  "('s, 'a, 'c, 'w) Env \<Rightarrow> ('s, 'a, 'c, 'w) State \<Rightarrow> string
     \<Rightarrow> Response \<times> ('s, 'a, 'c, 'w) State" where
  "HandleDeleteRepository env st path =
     (if path = [] then (http_Error ''Path parameter is required'' 400, st)
      else (case getRepository env st path of
              Inl err \<Rightarrow> (http_Error (Error err) 404, st)
            | Inr repo \<Rightarrow>
                (let st1 = st\<lparr>Repositories := (Repositories st)(Path repo := None),
                              Scheduler := RemoveTask (Scheduler st) (Path repo)\<rparr>;
                     configPath = fst (GetHomeConfigPath env)
                 in case SaveConfig env configPath st1 of
                      Some err \<Rightarrow> (http_Error (''Error saving config: '' @ Error err) 500, st1)
                    | None \<Rightarrow> (WriteHeader 200, st1))))"

text \<open>Every insert of the sources stores a repository under its own path
  (\<open>state.State.Repositories[repo.Path] = repo\<close>); this is the registry's invariant.\<close>

definition registry_wf :: "('s, 'a, 'c, 'w) State \<Rightarrow> bool" where
  "registry_wf st = (\<forall>k repo. Repositories st k = Some repo \<longrightarrow> Path repo = k)"

section \<open>Settings\<close>

definition handleSettingsChange ::
  "('s, 'a, 'c, 'w) Env \<Rightarrow> ('s, 'a, 'c, 'w) State \<Rightarrow> 'c
     \<Rightarrow> error option \<times> ('s, 'a, 'c, 'w) State" where
  "handleSettingsChange env st newSettings =
     (let st1 = st\<lparr>Settings := newSettings\<rparr>;
          ra = UpdateAgents env (Settings st1) (Agents st1);
          st2 = st1\<lparr>Agents := snd ra\<rparr>
      in case fst ra of
           Some err \<Rightarrow> (Some err, st2)
         | None \<Rightarrow>
             (let rw = UpdateWorkflows env (Settings st2) (Workflows st2);
                  st3 = st2\<lparr>Workflows := snd rw\<rparr>
              in case fst rw of
                   Some err \<Rightarrow> (Some err, st3)
                 | None \<Rightarrow>
                     (case UserHomeDir env of
                        Inl err \<Rightarrow> (Some err, st3)
                      | Inr home \<Rightarrow>
                          (case SaveConfig env (Join env home (ConfigPath env)) st3 of
                             Some err \<Rightarrow>
                               (Some (Failure (''error saving config: '' @ Error err)), st3)
                           | None \<Rightarrow> (None, st3)))))"

text \<open>The request body is decoded by \<open>encoding/json\<close>; the handler receives the
  outcome of the decoding.\<close>

definition HandleUpdateSettings ::
  "('s, 'a, 'c, 'w) Env \<Rightarrow> ('s, 'a, 'c, 'w) State \<Rightarrow> error + 'c
     \<Rightarrow> Response \<times> ('s, 'a, 'c, 'w) State" where
  "HandleUpdateSettings env st decoded =
     (case decoded of
        Inl err \<Rightarrow> (http_Error (Error err) 400, st)
      | Inr settings \<Rightarrow>
          (case handleSettingsChange env st settings of
             (Some err, st') \<Rightarrow> (http_Error (Error err) 500, st')
           | (None, st') \<Rightarrow> (WriteHeader 200, st')))"

section \<open>Comments on a local repository\<close>

text \<open>
  \<open>HandleAddLocalComment\<close>.  The remote provider of the repository is outside the
  sources: the handler's calls to it are recorded in the order they are made, and the
  provider's answer to a call is a parameter.  The clock (\<open>time.Now().Unix()\<close>) is a
  parameter too.
\<close>

record Comment =
  CommentID :: int
  CommentBody :: string
  DiffHunk :: string
  Reactions :: "string list"

record AddCommentRequest =
  ReqPath :: string
  ResourceID :: int
  ResourceType :: string
  ReqBody :: string
  ReqDiffHunk :: string

datatype remote_call =
  CreateIssueComment string int Comment
| CreatePRComment string int Comment

definition HandleAddLocalComment ::
  "('s, 'a, 'c, 'w) Env \<Rightarrow> (Repository \<Rightarrow> remote_call \<Rightarrow> error option) \<Rightarrow> int
     \<Rightarrow> ('s, 'a, 'c, 'w) State \<Rightarrow> error + AddCommentRequest
     \<Rightarrow> Response \<times> remote_call list" where
  "HandleAddLocalComment env remote now st decoded =
     (case decoded of
        Inl err \<Rightarrow> (http_Error (Error err) 400, [])
      | Inr req \<Rightarrow>
          (case getRepository env st (ReqPath req) of
             Inl err \<Rightarrow> (http_Error (Error err) 404, [])
           | Inr repo \<Rightarrow>
               (let comment = \<lparr>CommentID = now, CommentBody = ReqBody req,
                                DiffHunk = ReqDiffHunk req, Reactions = []\<rparr>
                in if ResourceType req = ''issue'' then
                     (let c = CreateIssueComment (ReqPath req) (ResourceID req) comment
                      in case remote repo c of
                           Some err \<Rightarrow> (http_Error (Error err) 500, [c])
                         | None \<Rightarrow> (WriteHeader 201, [c]))
                   else if ResourceType req = ''pr'' then
                     (let c = CreatePRComment (ReqPath req) (ResourceID req) comment
                      in case remote repo c of
                           Some err \<Rightarrow> (http_Error (Error err) 500, [c])
                         | None \<Rightarrow> (WriteHeader 201, [c]))
                   else (WriteHeader 201, []))))"

section \<open>The log viewer\<close>

text \<open>
  \<open>HandleLogs\<close>.  A log entry after \<open>json.Unmarshal\<close>; the time stamp is kept as
  the whole seconds \<open>int64(entry.TimeStamp)\<close>, which is all the handler uses of it.
\<close>

record LogEntry =
  Level :: string
  TimeStamp :: int
  Time :: int
  Logger :: string
  Caller :: string
  Message :: string
  Content :: string
  Model :: string
  ErrorText :: string
  LogID :: string

record Conversation =
  ConvID :: string
  StartTime :: int
  Messages :: "LogEntry list"
  MessageCount :: int
  ConvStatus :: string

record LogsData =
  Page :: string
  Conversations :: "Conversation list"

text \<open>
  Outside the sources, as parameters: \<open>json.Unmarshal\<close> into a \<open>LogEntry\<close>
  (\<open>None\<close> when the line is not valid JSON), \<open>strings.EqualFold\<close> and
  \<open>strings.ToLower\<close>, the errors of the JSON encoder and of the template, and the
  two choices the Go runtime leaves open: the order in which \<open>range\<close> visits the map of
  conversations together with the order \<open>sort.Slice\<close> gives to conversations that
  started in the same second (\<open>rangeOrder\<close>), and the order \<open>sort.Slice\<close> gives to
  messages of the same second (\<open>tieOrder\<close>).  Both are rearrangements applied before
  a stable sort.
\<close>

record LogEnv =
  Unmarshal :: "string \<Rightarrow> LogEntry option"
  EqualFold :: "string \<Rightarrow> string \<Rightarrow> bool"
  ToLower :: "string \<Rightarrow> string"
  rangeOrder :: "Conversation list \<Rightarrow> Conversation list"
  tieOrder :: "LogEntry list \<Rightarrow> LogEntry list"
  EncodeError :: "Conversation list \<Rightarrow> error option"
  TemplateError :: "LogsData \<Rightarrow> error option"

text \<open>\<open>strconv.Atoi\<close> on a 64-bit platform: an optional sign, then one or more
  decimal digits; a value outside the range of \<open>int\<close> is an error.\<close>

definition Atoi :: "string \<Rightarrow> int option" where
  "Atoi s =
     (case s of
        [] \<Rightarrow> None
      | c # cs \<Rightarrow>
          (let ds = (if c = CHR ''-'' \<or> c = CHR ''+'' then cs else s)
           in if ds = [] \<or> \<not> list_all is_digit ds then None
              else (let v = (if c = CHR ''-'' then - int (digits_val ds) else int (digits_val ds))
                    in if v < - (2 ^ 63) \<or> 2 ^ 63 - 1 < v then None else Some v)))"

definition parse_limit :: "string \<Rightarrow> int" where
  "parse_limit limitStr =
     (if limitStr \<noteq> [] then (case Atoi limitStr of Some parsedLimit \<Rightarrow> parsedLimit | None \<Rightarrow> 10)
      else 10)"

text \<open>\<open>html.EscapeString\<close> and \<open>strings.Contains\<close>.\<close>

definition escape_char :: "char \<Rightarrow> string" where
  "escape_char c =
     (if c = CHR ''&'' then ''&amp;''
      else if c = CHR 0x27 then ''&#39;''
      else if c = CHR ''<'' then ''&lt;''
      else if c = CHR ''>'' then ''&gt;''
      else if c = CHR 0x22 then ''&#34;''
      else [c])"

definition EscapeString :: "string \<Rightarrow> string" where
  "EscapeString s = concat (map escape_char s)"

fun Contains :: "string \<Rightarrow> string \<Rightarrow> bool" where
  "Contains [] substr = (substr = [])"
| "Contains (c # cs) substr = (take (length substr) (c # cs) = substr \<or> Contains cs substr)"

definition maxLineLength :: nat where
  "maxLineLength = 1024 * 1024"

text \<open>The body of the reading loop up to the grouping: the entry of a line, after
  truncation and escaping, if the line parses, passes both filters and has an
  identifier; \<open>None\<close> where the loop goes on to the next line without grouping.\<close>

definition accepted :: "LogEnv \<Rightarrow> string \<Rightarrow> string \<Rightarrow> string \<Rightarrow> LogEntry option" where
  "accepted env level search fullLine =
     (case Unmarshal env fullLine of
        None \<Rightarrow> None
      | Some e0 \<Rightarrow>
          (let e1 = (if maxLineLength < length fullLine \<and> Content e0 \<noteq> []
                        \<and> maxLineLength < length (Content e0)
                     then e0\<lparr>Content := ''[Content exceeds 1048576 bytes and has been truncated]''\<rparr>
                     else e0);
               e2 = e1\<lparr>Time := TimeStamp e1\<rparr>;
               entry = e2\<lparr>Message := EscapeString (Message e2),
                          Content := EscapeString (Content e2),
                          ErrorText := EscapeString (ErrorText e2)\<rparr>
           in if level \<noteq> [] \<and> \<not> EqualFold env (Level entry) level then None
              else if search \<noteq> [] \<and> \<not> Contains (ToLower env (Message entry)) (ToLower env search)
                then None
              else if LogID entry \<noteq> [] then Some entry
              else None))"

text \<open>The map of conversations, as an association list with one pair for each key.
  An entry joins the conversation of its identifier or starts a new one.\<close>

fun group_entry :: "LogEntry \<Rightarrow> (string \<times> Conversation) list \<Rightarrow> (string \<times> Conversation) list" where
  "group_entry entry [] =
     [(LogID entry, \<lparr>ConvID = LogID entry, StartTime = Time entry, Messages = [entry],
                      MessageCount = 1, ConvStatus = []\<rparr>)]"
| "group_entry entry ((k, conv) # rest) =
     (if k = LogID entry
      then (k, conv\<lparr>Messages := Messages conv @ [entry],
                    MessageCount := MessageCount conv + 1\<rparr>) # rest
      else (k, conv) # group_entry entry rest)"

text \<open>What \<open>reader.ReadLine\<close> delivers, one item for each full line: the line, or an
  error.  The end of the list is the end of the file.  The loop stops without an
  error at the end of the file, at an error whose text is \<open>EOF\<close> and at an empty
  line; any other error ends the handler.\<close>

datatype read_item = Line string | ReadFailure error

fun read_loop ::
  "LogEnv \<Rightarrow> string \<Rightarrow> string \<Rightarrow> read_item list \<Rightarrow> (string \<times> Conversation) list
     \<Rightarrow> error + (string \<times> Conversation) list" where
  "read_loop env level search [] conversations = Inr conversations"
| "read_loop env level search (ReadFailure err # rest) conversations =
     (if Error err = ''EOF'' then Inr conversations else Inl err)"
| "read_loop env level search (Line fullLine # rest) conversations =
     (if fullLine = [] then Inr conversations
      else read_loop env level search rest
             (case accepted env level search fullLine of
                None \<Rightarrow> conversations
              | Some entry \<Rightarrow> group_entry entry conversations))"

definition finish_conversation :: "LogEnv \<Rightarrow> Conversation \<Rightarrow> Conversation" where
  "finish_conversation env conv =
     (let msgs = sort_key Time (tieOrder env (Messages conv))
      in if msgs \<noteq> [] then conv\<lparr>Messages := msgs, ConvStatus := Level (last msgs)\<rparr>
         else conv\<lparr>Messages := msgs\<rparr>)"

definition sorted_conversations ::
  "LogEnv \<Rightarrow> (string \<times> Conversation) list \<Rightarrow> Conversation list" where
  "sorted_conversations env conversations =
     sort_key (\<lambda>c. - StartTime c)
       (map (finish_conversation env) (rangeOrder env (map snd conversations)))"

definition apply_limit :: "int \<Rightarrow> Conversation list \<Rightarrow> Conversation list" where
  "apply_limit limit cs = (if 0 < limit \<and> limit < int (length cs) then take (nat limit) cs else cs)"

datatype LogsResponse =
  LogsFailed Response
| LogsJSON "Conversation list" "error option"
| LogsPage LogsData "error option"

definition HandleLogs ::
  "LogEnv \<Rightarrow> string \<Rightarrow> string \<Rightarrow> string \<Rightarrow> bool \<Rightarrow> error + read_item list \<Rightarrow> LogsResponse" where
  "HandleLogs env search level limitStr isAjax file =
     (let limit = parse_limit limitStr
      in case file of
           Inl err \<Rightarrow>
             (let errString = ''Error reading log file: '' @ Error err
              in if isAjax
                 then LogsFailed (http_Error ([CHR ''{'', CHR 0x22] @ ''error'' @ [CHR 0x22]
                        @ '': '' @ [CHR 0x22] @ errString @ [CHR 0x22, CHR ''}'']) 500)
                 else LogsFailed (http_Error errString 500))
         | Inr items \<Rightarrow>
             (case read_loop env level search items [] of
                Inl err \<Rightarrow>
                  (let errString = ''Error reading line: '' @ Error err
                   in if isAjax
                      then LogsFailed (http_Error ([CHR ''{'', CHR 0x22] @ ''error'' @ [CHR 0x22]
                             @ '': '' @ [CHR 0x22] @ errString @ [CHR 0x22, CHR ''}'']) 500)
                      else LogsFailed (http_Error errString 500))
              | Inr conversations \<Rightarrow>
                  (let sortedConversations =
                         apply_limit limit (sorted_conversations env conversations)
                   in if isAjax
                      then LogsJSON sortedConversations (EncodeError env sortedConversations)
                      else (let data = \<lparr>Page = ''logs'', Conversations = sortedConversations\<rparr>
                            in LogsPage data (TemplateError env data)))))"

text \<open>The conversations a response carries; an error response carries none.\<close>

fun conversations_of :: "LogsResponse \<Rightarrow> Conversation list option" where
  "conversations_of (LogsFailed r) = None"
| "conversations_of (LogsJSON cs e) = Some cs"
| "conversations_of (LogsPage d e) = Some (Conversations d)"

text \<open>In the words of the claim: the lines the handler reads before it stops, and
  the entries among them that match the filters and carry an identifier.\<close>

fun lines_read :: "read_item list \<Rightarrow> string list" where
  "lines_read [] = []"
| "lines_read (ReadFailure err # rest) = []"
| "lines_read (Line l # rest) = (if l = [] then [] else l # lines_read rest)"

definition matching :: "LogEnv \<Rightarrow> string \<Rightarrow> string \<Rightarrow> read_item list \<Rightarrow> LogEntry list" where
  "matching env level search items =
     List.map_filter (accepted env level search) (lines_read items)"

section \<open>Concrete states\<close>

text \<open>A scheduler with two tasks, an environment in which every collaborator
  succeeds, one in which saving the configuration fails, and an application state
  with one repository and its sync task.\<close>

definition ex_sched :: "(ScheduleExpression, string) Scheduler" where
  "ex_sched = run_sched parse [OpAdd ''r1'' ''* * * * *'' ''A'', OpAdd ''r2'' ''0 0 * * *'' ''C'']"

definition ex_env :: "(ScheduleExpression, string, string, string) Env" where
  "ex_env =
     \<lparr>Abs = (\<lambda>p. Inr p),
      UpdateStatus = (\<lambda>r. Inr (r\<lparr>Status := ''clean''\<rparr>)),
      GetHomeConfigPath = (''/home/u/.config/mule/config.yaml'', None),
      SaveConfig = (\<lambda>p st. None),
      UserHomeDir = Inr ''/home/u'',
      Join = (\<lambda>a b. a @ ''/'' @ b),
      ConfigPath = ''.config/mule/config.yaml'',
      UpdateAgents = (\<lambda>c w. (None, w)),
      UpdateWorkflows = (\<lambda>c w. (None, w))\<rparr>"

definition ex_env_nosave :: "(ScheduleExpression, string, string, string) Env" where
  "ex_env_nosave = ex_env\<lparr>SaveConfig := (\<lambda>p st. Some (Failure ''disk full''))\<rparr>"

definition ex_repo :: Repository where
  "ex_repo = \<lparr>Path = ''/r1'', RepoSchedule = ''* * * * *'', Status = ''new''\<rparr>"

definition ex_state :: "(ScheduleExpression, string, string, string) State" where
  "ex_state =
     \<lparr>Repositories = [''/r1'' \<mapsto> ex_repo],
      Scheduler = run_sched parse [OpAdd ''/r1'' ''* * * * *'' ''sync''],
      Settings = ''old'',
      Agents = ''agents'',
      Workflows = ''workflows''\<rparr>"

definition ex_request :: AddCommentRequest where
  "ex_request =
     \<lparr>ReqPath = ''/r1'', ResourceID = 7, ResourceType = ''discussion'',
      ReqBody = ''hello'', ReqDiffHunk = []\<rparr>"

text \<open>A log file of five lines with a toy decoder: the first character of a line
  is the conversation identifier (\<open>-\<close> for none, \<open>x\<close> for a line that is not JSON),
  the rest is the message, and its length is the time stamp.  \<open>ex_conversations\<close>
  is what the handler returns for it without a limit.\<close>

definition ex_unmarshal :: "string \<Rightarrow> LogEntry option" where
  "ex_unmarshal l =
     (case l of
        [] \<Rightarrow> None
      | c # cs \<Rightarrow>
          (if c = CHR ''x'' then None
           else Some \<lparr>Level = ''info'', TimeStamp = int (length cs), Time = 0, Logger = [],
                      Caller = [], Message = cs, Content = [], Model = [], ErrorText = [],
                      LogID = (if c = CHR ''-'' then [] else [c])\<rparr>))"

definition ex_log_env :: LogEnv where
  "ex_log_env =
     \<lparr>Unmarshal = ex_unmarshal,
      EqualFold = (\<lambda>a b. a = b),
      ToLower = (\<lambda>a. a),
      rangeOrder = rev,
      tieOrder = (\<lambda>ms. ms),
      EncodeError = (\<lambda>cs. None),
      TemplateError = (\<lambda>d. None)\<rparr>"

definition ex_log_file :: "read_item list" where
  "ex_log_file = [Line ''a<1>'', Line ''-no id'', Line ''bsecond'', Line ''xbad'', Line ''ab'']"

definition ex_conversations :: "Conversation list" where
  "ex_conversations =
     [\<lparr>ConvID = ''b'', StartTime = 6,
       Messages = [\<lparr>Level = ''info'', TimeStamp = 6, Time = 6, Logger = [], Caller = [],
                    Message = ''second'', Content = [], Model = [], ErrorText = [], LogID = ''b''\<rparr>],
       MessageCount = 1, ConvStatus = ''info''\<rparr>,
      \<lparr>ConvID = ''a'', StartTime = 3,
       Messages = [\<lparr>Level = ''info'', TimeStamp = 1, Time = 1, Logger = [], Caller = [],
                    Message = ''b'', Content = [], Model = [], ErrorText = [], LogID = ''a''\<rparr>,
                   \<lparr>Level = ''info'', TimeStamp = 3, Time = 3, Logger = [], Caller = [],
                    Message = ''&lt;1&gt;'', Content = [], Model = [], ErrorText = [], LogID = ''a''\<rparr>],
       MessageCount = 2, ConvStatus = ''info''\<rparr>]"

section \<open>The scheduler: invariant and evaluation lemmas\<close>

lemma sched_inv_New: "sched_inv NewScheduler"
  by (simp add: sched_inv_def NewScheduler_def cron_New_def entries_of_def)

lemma inv_id_key:
  assumes inv: "sched_inv s" and t: "tasks s k = Some t" and e: "e \<in> set (entries (cron s))"
  shows "(EntryID e = ID t) = (fst (Job e) = k)"
proof
  assume "fst (Job e) = k"
  with e have "e \<in> set (entries_of s k)" by (simp add: entries_of_def)
  then have "EntryID e \<in> set (map EntryID (entries_of s k))" by simp
  with inv t show "EntryID e = ID t" by (simp add: sched_inv_def)
next
  assume eq: "EntryID e = ID t"
  from inv t have "map EntryID (entries_of s k) = [ID t]" by (simp add: sched_inv_def)
  then obtain e' where e': "entries_of s k = [e']" "EntryID e' = ID t"
    by (cases "entries_of s k") auto
  then have "e' \<in> set (entries_of s k)" by simp
  then have in': "e' \<in> set (entries (cron s))" and key': "fst (Job e') = k"
    by (simp_all add: entries_of_def)
  from inv have "inj_on EntryID (set (entries (cron s)))"
    by (simp add: sched_inv_def distinct_map)
  with e in' eq e'(2) have "e = e'" by (simp add: inj_on_def)
  with key' show "fst (Job e) = k" by simp
qed

lemma RemoveTask_tasks: "tasks (RemoveTask s k) = (tasks s)(k := None)"
  by (auto simp: RemoveTask_def split: option.splits)

lemma inv_absent_entries:
  "sched_inv s \<Longrightarrow> tasks s k = None \<Longrightarrow> entries_of s k = []"
  by (auto simp: sched_inv_def dest!: spec[of _ k])

lemma RemoveTask_entries:
  assumes "sched_inv s"
  shows "entries (cron (RemoveTask s k)) = filter (\<lambda>e. fst (Job e) \<noteq> k) (entries (cron s))"
proof (cases "tasks s k")
  case None
  with assms have "entries_of s k = []" by (rule inv_absent_entries)
  then have "filter (\<lambda>e. fst (Job e) \<noteq> k) (entries (cron s)) = entries (cron s)"
    by (auto simp: entries_of_def filter_empty_conv filter_id_conv)
  with None show ?thesis by (simp add: RemoveTask_def)
next
  case (Some t)
  have "filter (\<lambda>e. EntryID e \<noteq> ID t) (entries (cron s)) =
        filter (\<lambda>e. fst (Job e) \<noteq> k) (entries (cron s))"
    by (rule filter_cong) (auto simp: inv_id_key[OF assms Some])
  with Some show ?thesis by (simp add: RemoveTask_def cron_Remove_def)
qed

lemma RemoveTask_nextID: "nextID (cron (RemoveTask s k)) = nextID (cron s)"
  by (simp add: RemoveTask_def cron_Remove_def split: option.splits)

lemma sched_inv_RemoveTask:
  assumes "sched_inv s"
  shows "sched_inv (RemoveTask s k)"
proof -
  have e: "entries (cron (RemoveTask s k)) = filter (\<lambda>e. fst (Job e) \<noteq> k) (entries (cron s))"
    using assms by (rule RemoveTask_entries)
  have "\<And>k'. filter (\<lambda>e. fst (Job e) = k') (filter (\<lambda>e. fst (Job e) \<noteq> k) (entries (cron s)))
      = (if k' = k then [] else filter (\<lambda>e. fst (Job e) = k') (entries (cron s)))"
    by (auto simp: filter_empty_conv intro: filter_cong)
  with assms show ?thesis
    by (auto simp: sched_inv_def e RemoveTask_tasks RemoveTask_nextID entries_of_def distinct_map_filter)
qed

lemma AddTask_RemoveTask:
  "AddTask prs s key schedule action =
     (case cron_AddFunc prs (cron (RemoveTask s key)) schedule (key, action) of
        Inl err \<Rightarrow> (Some err, RemoveTask s key)
      | Inr (i, c) \<Rightarrow>
          (None, (RemoveTask s key)\<lparr>cron := c,
             tasks := (tasks (RemoveTask s key))(key \<mapsto> \<lparr>ID = i, Schedule = schedule, Action = action\<rparr>)\<rparr>))"
  unfolding AddTask_def RemoveTask_def Let_def ..

lemma AddTask_eq:
  "AddTask prs s key schedule action =
     (case prs schedule of
        Inl err \<Rightarrow> (Some err, RemoveTask s key)
      | Inr sched \<Rightarrow>
         (None, \<lparr>cron = \<lparr>entries = entries (cron (RemoveTask s key)) @
                         [\<lparr>EntryID = nextID (cron s) + 1, EntrySchedule = sched, Job = (key, action)\<rparr>],
                      nextID = nextID (cron s) + 1\<rparr>,
             tasks = (tasks s)(key \<mapsto> \<lparr>ID = nextID (cron s) + 1, Schedule = schedule, Action = action\<rparr>)\<rparr>))"
  by (simp add: AddTask_RemoveTask cron_AddFunc_def Let_def RemoveTask_tasks RemoveTask_nextID split: sum.splits)

lemma AddTask_fail:
  "prs schedule = Inl err \<Longrightarrow> AddTask prs s key schedule action = (Some err, RemoveTask s key)"
  by (simp add: AddTask_RemoveTask cron_AddFunc_def)

lemma AddTask_ok:
  "prs schedule = Inr sched \<Longrightarrow>
   AddTask prs s key schedule action =
     (None, \<lparr>cron = \<lparr>entries = entries (cron (RemoveTask s key)) @
                         [\<lparr>EntryID = nextID (cron s) + 1, EntrySchedule = sched, Job = (key, action)\<rparr>],
                      nextID = nextID (cron s) + 1\<rparr>,
             tasks = (tasks s)(key \<mapsto> \<lparr>ID = nextID (cron s) + 1, Schedule = schedule, Action = action\<rparr>)\<rparr>)"
  by (simp add: AddTask_RemoveTask cron_AddFunc_def Let_def RemoveTask_tasks RemoveTask_nextID)

lemma sched_inv_AddTask:
  assumes "sched_inv s"
  shows "sched_inv (snd (AddTask prs s key schedule action))"
proof (cases "prs schedule")
  case (Inl err)
  with assms show ?thesis by (simp add: AddTask_fail sched_inv_RemoveTask)
next
  case (Inr sched)
  have r: "sched_inv (RemoveTask s key)" using assms by (rule sched_inv_RemoveTask)
  have none: "entries_of (RemoveTask s key) key = []"
    using r by (rule inv_absent_entries) (simp add: RemoveTask_tasks)
  from r have fresh: "\<forall>e \<in> set (entries (cron (RemoveTask s key))). EntryID e \<le> nextID (cron s)"
    by (simp add: sched_inv_def RemoveTask_nextID)
  from r have d: "distinct (map EntryID (entries (cron (RemoveTask s key))))"
    by (simp add: sched_inv_def)
  from r have m: "\<And>k. map EntryID (filter (\<lambda>e. fst (Job e) = k) (entries (cron (RemoveTask s key)))) =
      (case ((tasks s)(key := None)) k of None \<Rightarrow> [] | Some t \<Rightarrow> [ID t])"
    by (simp add: sched_inv_def entries_of_def RemoveTask_tasks)
  from none have n: "filter (\<lambda>e. fst (Job e) = key) (entries (cron (RemoveTask s key))) = []"
    by (simp add: entries_of_def)
  show ?thesis
    using fresh d m n
    by (auto simp: AddTask_ok[of prs schedule sched, OF Inr] sched_inv_def entries_of_def)
qed

lemma sched_inv_apply: "sched_inv s \<Longrightarrow> sched_inv (apply_sched_op prs s x)"
  by (cases x) (simp_all add: sched_inv_AddTask sched_inv_RemoveTask UpdateTask_def)

lemma sched_inv_foldl: "sched_inv s \<Longrightarrow> sched_inv (foldl (apply_sched_op prs) s ops)"
  by (induction ops arbitrary: s) (simp_all add: sched_inv_apply)

lemma sched_inv_run: "sched_inv (run_sched prs ops)"
  by (simp add: run_sched_def sched_inv_foldl sched_inv_New)

lemma parse_every_minute:
  "parse ''* * * * *'' = Inr [[Wildcard], [Wildcard], [Wildcard], [Wildcard], [Wildcard]]"
  by code_simp

lemma parse_midnight:
  "parse ''0 0 * * *'' = Inr [[Literal 0], [Literal 0], [Wildcard], [Wildcard], [Wildcard]]"
  by code_simp

lemma parse_step_61: "parse ''*/61 * * * *'' = Inl (InvalidExpression ''*/61 * * * *'')"
  by code_simp

lemma parse_garbage: "parse ''not a schedule'' = Inl (InvalidExpression ''not a schedule'')"
  by code_simp

lemma parse_error_kind: "parse s = Inl e \<Longrightarrow> e = InvalidExpression s"
  by (auto simp: parse_def Let_def split: option.splits if_splits)


lemma ex_sched_eq:
  "ex_sched = \<lparr>cron = \<lparr>entries =
       [\<lparr>EntryID = 1, EntrySchedule = [[Wildcard], [Wildcard], [Wildcard], [Wildcard], [Wildcard]], Job = (''r1'', ''A'')\<rparr>,
        \<lparr>EntryID = 2, EntrySchedule = [[Literal 0], [Literal 0], [Wildcard], [Wildcard], [Wildcard]], Job = (''r2'', ''C'')\<rparr>],
       nextID = 2\<rparr>,
     tasks = [''r1'' \<mapsto> \<lparr>ID = 1, Schedule = ''* * * * *'', Action = ''A''\<rparr>,
              ''r2'' \<mapsto> \<lparr>ID = 2, Schedule = ''0 0 * * *'', Action = ''C''\<rparr>]\<rparr>"
  by (simp add: ex_sched_def run_sched_def AddTask_eq parse_every_minute parse_midnight
      NewScheduler_def cron_New_def RemoveTask_def)

section \<open>The scheduler: claims\<close>

text \<open>
  Claim C1, as stated, fails: \<open>AddTask\<close> removes the task registered under the key
  before it hands the schedule string to the parser.  In the scheduler \<open>ex_sched\<close>
  the key \<open>r1\<close> has a task; a registration under \<open>r1\<close> with a malformed schedule
  returns the parser's error and leaves \<open>r1\<close> without a task.
\<close>
theorem AddTask_malformed_counterexample:
  "tasks ex_sched ''r1'' = Some \<lparr>ID = 1, Schedule = ''* * * * *'', Action = ''A''\<rparr> \<and>
   fst (AddTask parse ex_sched ''r1'' ''not a schedule'' ''B'') =
     Some (InvalidExpression ''not a schedule'') \<and>
   tasks (snd (AddTask parse ex_sched ''r1'' ''not a schedule'' ''B'')) ''r1'' = None"
  by (simp add: AddTask_eq parse_garbage RemoveTask_tasks ex_sched_eq)

text \<open>
  Claim C1, amended: if \<open>AddTask\<close> is called with a schedule string that the parser
  rejects, it returns the parser's error, the task of every other key is left
  untouched in the task map, and the key itself has no task afterwards: a task
  registered under it before has been removed, and with it the cron entry that
  carries its identifier.  The cron entries of the other keys stay, no new
  identifier is handed out, and in a scheduler reached from a new one by scheduler
  calls the key has no cron entry left.
\<close>
theorem AddTask_malformed:
  "prs schedule = Inl err \<Longrightarrow>
     fst (AddTask prs s key schedule action) = Some err \<and>
     (\<forall>k. k \<noteq> key \<longrightarrow> tasks (snd (AddTask prs s key schedule action)) k = tasks s k) \<and>
     tasks (snd (AddTask prs s key schedule action)) key = None \<and>
     (\<forall>t. tasks s key = Some t \<longrightarrow>
        entries (cron (snd (AddTask prs s key schedule action))) =
          filter (\<lambda>e. EntryID e \<noteq> ID t) (entries (cron s))) \<and>
     (tasks s key = None \<longrightarrow>
        entries (cron (snd (AddTask prs s key schedule action))) = entries (cron s)) \<and>
     nextID (cron (snd (AddTask prs s key schedule action))) = nextID (cron s) \<and>
     (s = run_sched prs ops \<longrightarrow>
        entries (cron (snd (AddTask prs s key schedule action))) =
          filter (\<lambda>e. fst (Job e) \<noteq> key) (entries (cron s)) \<and>
        entries_of (snd (AddTask prs s key schedule action)) key = [])"
proof -
  assume bad: "prs schedule = Inl err"
  have st: "AddTask prs s key schedule action = (Some err, RemoveTask s key)"
    using bad by (rule AddTask_fail)
  have a: "fst (AddTask prs s key schedule action) = Some err"
    by (simp add: st)
  have b: "\<forall>k. k \<noteq> key \<longrightarrow> tasks (snd (AddTask prs s key schedule action)) k = tasks s k"
    by (simp add: st RemoveTask_tasks)
  have c: "tasks (snd (AddTask prs s key schedule action)) key = None"
    by (simp add: st RemoveTask_tasks)
  have d: "\<forall>t. tasks s key = Some t \<longrightarrow>
        entries (cron (snd (AddTask prs s key schedule action))) =
          filter (\<lambda>e. EntryID e \<noteq> ID t) (entries (cron s))"
    by (simp add: st RemoveTask_def cron_Remove_def)
  have e: "tasks s key = None \<longrightarrow>
        entries (cron (snd (AddTask prs s key schedule action))) = entries (cron s)"
    by (simp add: st RemoveTask_def)
  have f: "nextID (cron (snd (AddTask prs s key schedule action))) = nextID (cron s)"
    by (simp add: st RemoveTask_nextID)
  have g: "s = run_sched prs ops \<longrightarrow>
        entries (cron (snd (AddTask prs s key schedule action))) =
          filter (\<lambda>e. fst (Job e) \<noteq> key) (entries (cron s)) \<and>
        entries_of (snd (AddTask prs s key schedule action)) key = []"
  proof
    assume "s = run_sched prs ops"
    then have inv: "sched_inv s" by (simp add: sched_inv_run)
    have r: "entries (cron (RemoveTask s key)) = filter (\<lambda>e. fst (Job e) \<noteq> key) (entries (cron s))"
      using inv by (rule RemoveTask_entries)
    have "entries_of (RemoveTask s key) key = []"
      by (simp add: entries_of_def r)
    with r show "entries (cron (snd (AddTask prs s key schedule action))) =
          filter (\<lambda>e. fst (Job e) \<noteq> key) (entries (cron s)) \<and>
        entries_of (snd (AddTask prs s key schedule action)) key = []"
      by (simp add: st)
  qed
  from a b c d e f g show ?thesis by blast
qed

text \<open>The amended claim C1 at \<open>ex_sched\<close>: the task and the cron entry of \<open>r2\<close>
  stay, those of \<open>r1\<close> are gone.\<close>
theorem AddTask_malformed_witness:
  "parse ''not a schedule'' = Inl (InvalidExpression ''not a schedule'') \<and>
   fst (AddTask parse ex_sched ''r1'' ''not a schedule'' ''B'') =
     Some (InvalidExpression ''not a schedule'') \<and>
   tasks (snd (AddTask parse ex_sched ''r1'' ''not a schedule'' ''B'')) ''r2'' =
     Some \<lparr>ID = 2, Schedule = ''0 0 * * *'', Action = ''C''\<rparr> \<and>
   tasks (snd (AddTask parse ex_sched ''r1'' ''not a schedule'' ''B'')) ''r1'' = None \<and>
   entries (cron (snd (AddTask parse ex_sched ''r1'' ''not a schedule'' ''B''))) =
     [\<lparr>EntryID = 2, EntrySchedule = [[Literal 0], [Literal 0], [Wildcard], [Wildcard], [Wildcard]],
       Job = (''r2'', ''C'')\<rparr>] \<and>
   entries_of (snd (AddTask parse ex_sched ''r1'' ''not a schedule'' ''B'')) ''r1'' = []"
proof -
  have r: "tasks ex_sched ''r1'' = Some \<lparr>ID = 1, Schedule = ''* * * * *'', Action = ''A''\<rparr>"
    by (simp add: ex_sched_eq)
  have t2: "tasks ex_sched ''r2'' = Some \<lparr>ID = 2, Schedule = ''0 0 * * *'', Action = ''C''\<rparr>"
    by (simp add: ex_sched_eq)
  have es: "entries (cron ex_sched) =
       [\<lparr>EntryID = 1, EntrySchedule = [[Wildcard], [Wildcard], [Wildcard], [Wildcard], [Wildcard]],
         Job = (''r1'', ''A'')\<rparr>,
        \<lparr>EntryID = 2, EntrySchedule = [[Literal 0], [Literal 0], [Wildcard], [Wildcard], [Wildcard]],
         Job = (''r2'', ''C'')\<rparr>]"
    by (simp add: ex_sched_eq)
  have e: "ex_sched = run_sched parse [OpAdd ''r1'' ''* * * * *'' ''A'', OpAdd ''r2'' ''0 0 * * *'' ''C'']"
    by (rule ex_sched_def)
  show ?thesis
    using AddTask_malformed [of parse "''not a schedule''" "InvalidExpression ''not a schedule''"
        ex_sched "''r1''" "''B''"
        "[OpAdd ''r1'' ''* * * * *'' ''A'', OpAdd ''r2'' ''0 0 * * *'' ''C'']"]
      parse_garbage r e
    by (simp add: es t2)
qed

lemma entries_of_reachable:
  "sched_inv s \<Longrightarrow> length (entries_of s k) \<le> 1"
proof -
  assume "sched_inv s"
  then have "map EntryID (entries_of s k) = (case tasks s k of None \<Rightarrow> [] | Some t \<Rightarrow> [ID t])"
    by (simp add: sched_inv_def)
  then have "length (map EntryID (entries_of s k)) \<le> 1"
    by (simp split: option.splits)
  then show ?thesis by simp
qed

lemma AddTask_entries_of:
  assumes inv: "sched_inv s" and ok: "prs schedule = Inr sched"
  shows "entries_of (snd (AddTask prs s key schedule action)) key =
           [\<lparr>EntryID = nextID (cron s) + 1, EntrySchedule = sched, Job = (key, action)\<rparr>]"
proof -
  have r: "sched_inv (RemoveTask s key)" using inv by (rule sched_inv_RemoveTask)
  have "entries_of (RemoveTask s key) key = []"
    using r by (rule inv_absent_entries) (simp add: RemoveTask_tasks)
  then show ?thesis
    by (simp add: AddTask_eq ok entries_of_def)
qed

text \<open>
  Claim C3: after every sequence of \<open>AddTask\<close>, \<open>UpdateTask\<close> and \<open>RemoveTask\<close>
  calls on a new scheduler, a key has at most one cron entry, and it has one exactly
  when the task map has a task for it, the one with the task's identifier.  In
  particular, after \<open>AddTask k sch1 A\<close> followed by a successful
  \<open>AddTask k sch2 B\<close>, the task of \<open>k\<close> carries the schedule \<open>sch2\<close> and the action
  \<open>B\<close>, and the only cron entry of \<open>k\<close> is the one of \<open>B\<close>: the entry of \<open>A\<close> is
  removed.
\<close>
theorem one_entry_per_key:
  "length (entries_of (run_sched prs ops) k) \<le> 1 \<and>
   map EntryID (entries_of (run_sched prs ops) k) =
     (case tasks (run_sched prs ops) k of None \<Rightarrow> [] | Some t \<Rightarrow> [ID t]) \<and>
   (prs sch2 = Inr x \<longrightarrow>
      tasks (snd (AddTask prs (snd (AddTask prs (run_sched prs ops) k sch1 A)) k sch2 B)) k =
        Some \<lparr>ID = nextID (cron (snd (AddTask prs (run_sched prs ops) k sch1 A))) + 1,
              Schedule = sch2, Action = B\<rparr> \<and>
      entries_of (snd (AddTask prs (snd (AddTask prs (run_sched prs ops) k sch1 A)) k sch2 B)) k =
        [\<lparr>EntryID = nextID (cron (snd (AddTask prs (run_sched prs ops) k sch1 A))) + 1,
          EntrySchedule = x, Job = (k, B)\<rparr>])"
proof -
  have inv: "sched_inv (run_sched prs ops)" by (rule sched_inv_run)
  have inv1: "sched_inv (snd (AddTask prs (run_sched prs ops) k sch1 A))"
    using inv by (rule sched_inv_AddTask)
  have a: "length (entries_of (run_sched prs ops) k) \<le> 1"
    using inv by (rule entries_of_reachable)
  have b: "map EntryID (entries_of (run_sched prs ops) k) =
     (case tasks (run_sched prs ops) k of None \<Rightarrow> [] | Some t \<Rightarrow> [ID t])"
    using inv by (simp add: sched_inv_def)
  have c: "prs sch2 = Inr x \<Longrightarrow>
      tasks (snd (AddTask prs (snd (AddTask prs (run_sched prs ops) k sch1 A)) k sch2 B)) k =
        Some \<lparr>ID = nextID (cron (snd (AddTask prs (run_sched prs ops) k sch1 A))) + 1,
              Schedule = sch2, Action = B\<rparr>"
    by (simp add: AddTask_ok[of prs sch2 x])
  have d: "prs sch2 = Inr x \<Longrightarrow>
      entries_of (snd (AddTask prs (snd (AddTask prs (run_sched prs ops) k sch1 A)) k sch2 B)) k =
        [\<lparr>EntryID = nextID (cron (snd (AddTask prs (run_sched prs ops) k sch1 A))) + 1,
          EntrySchedule = x, Job = (k, B)\<rparr>]"
    using inv1 by (rule AddTask_entries_of)
  from a b c d show ?thesis by blast
qed

lemma run_sched_Nil: "run_sched prs [] = NewScheduler"
  by (simp add: run_sched_def)

text \<open>Claim C3 with the keys and schedules of the specification's example.\<close>
theorem one_entry_per_key_witness:
  "parse ''0 0 * * *'' = Inr [[Literal 0], [Literal 0], [Wildcard], [Wildcard], [Wildcard]] \<and>
   tasks (snd (AddTask parse (snd (AddTask parse (run_sched parse []) ''r1'' ''* * * * *'' ''A''))
                 ''r1'' ''0 0 * * *'' ''B'')) ''r1'' =
     Some \<lparr>ID = 2, Schedule = ''0 0 * * *'', Action = ''B''\<rparr> \<and>
   entries_of (snd (AddTask parse (snd (AddTask parse (run_sched parse []) ''r1'' ''* * * * *'' ''A''))
                 ''r1'' ''0 0 * * *'' ''B'')) ''r1'' =
     [\<lparr>EntryID = 2, EntrySchedule = [[Literal 0], [Literal 0], [Wildcard], [Wildcard], [Wildcard]],
       Job = (''r1'', ''B'')\<rparr>]"
  using one_entry_per_key [of parse "[]" "''r1''" "''0 0 * * *''"
      "[[Literal 0], [Literal 0], [Wildcard], [Wildcard], [Wildcard]]" "''* * * * *''" "''A''" "''B''"]
    parse_midnight
  by (simp add: AddTask_eq parse_every_minute run_sched_Nil NewScheduler_def cron_New_def)

text \<open>
  Claim C4: for every key, schedule string and action, \<open>UpdateTask\<close> returns the same
  result as \<open>AddTask\<close> and leaves the scheduler in the same state.
\<close>
theorem UpdateTask_is_AddTask:
  "UpdateTask prs s key schedule action = AddTask prs s key schedule action"
  by (simp add: UpdateTask_def)

lemma RemoveTask_absent: "tasks s key = None \<Longrightarrow> RemoveTask s key = s"
  by (simp add: RemoveTask_def)

lemma RemoveTask_idem: "RemoveTask (RemoveTask s key) key = RemoveTask s key"
  by (rule RemoveTask_absent) (simp add: RemoveTask_tasks)

text \<open>
  Claim C5: \<open>RemoveTask\<close> returns for every key and has no error result.  Called with
  a key that has no task, it leaves the scheduler as it is.  Called twice, it does
  what one call does.  Called with a key that has a task, it deletes that key from
  the task map, keeps the task of every other key, and removes the cron entry with
  the task's identifier (the pending fire); in a scheduler reached from a new one by
  scheduler calls, the cron entries removed are exactly those of the key.
\<close>
theorem RemoveTask_total_idempotent:
  "(tasks s key = None \<longrightarrow> RemoveTask s key = s) \<and>
   RemoveTask (RemoveTask s key) key = RemoveTask s key \<and>
   tasks (RemoveTask s key) key = None \<and>
   (\<forall>k. k \<noteq> key \<longrightarrow> tasks (RemoveTask s key) k = tasks s k) \<and>
   (\<forall>t. tasks s key = Some t \<longrightarrow>
      entries (cron (RemoveTask s key)) = filter (\<lambda>e. EntryID e \<noteq> ID t) (entries (cron s))) \<and>
   (s = run_sched prs ops \<longrightarrow>
      entries (cron (RemoveTask s key)) = filter (\<lambda>e. fst (Job e) \<noteq> key) (entries (cron s)))"
proof -
  have "s = run_sched prs ops \<Longrightarrow>
      entries (cron (RemoveTask s key)) = filter (\<lambda>e. fst (Job e) \<noteq> key) (entries (cron s))"
    by (simp add: RemoveTask_entries sched_inv_run)
  moreover have "\<And>t. tasks s key = Some t \<Longrightarrow>
      entries (cron (RemoveTask s key)) = filter (\<lambda>e. EntryID e \<noteq> ID t) (entries (cron s))"
    by (simp add: RemoveTask_def cron_Remove_def)
  ultimately show ?thesis
    by (simp add: RemoveTask_absent RemoveTask_idem RemoveTask_tasks)
qed

text \<open>Claim C5 at \<open>ex_sched\<close>, for the absent key \<open>unknown\<close> and the present key
  \<open>r1\<close>.\<close>
theorem RemoveTask_total_idempotent_witness:
  "tasks ex_sched ''unknown'' = None \<and> RemoveTask ex_sched ''unknown'' = ex_sched \<and>
   tasks ex_sched ''r1'' = Some \<lparr>ID = 1, Schedule = ''* * * * *'', Action = ''A''\<rparr> \<and>
   tasks (RemoveTask ex_sched ''r1'') ''r1'' = None \<and>
   tasks (RemoveTask ex_sched ''r1'') ''r2'' = Some \<lparr>ID = 2, Schedule = ''0 0 * * *'', Action = ''C''\<rparr> \<and>
   entries (cron (RemoveTask ex_sched ''r1'')) =
     [\<lparr>EntryID = 2, EntrySchedule = [[Literal 0], [Literal 0], [Wildcard], [Wildcard], [Wildcard]],
       Job = (''r2'', ''C'')\<rparr>]"
proof -
  have u: "tasks ex_sched ''unknown'' = None" by (simp add: ex_sched_eq)
  have r: "tasks ex_sched ''r1'' = Some \<lparr>ID = 1, Schedule = ''* * * * *'', Action = ''A''\<rparr>"
    by (simp add: ex_sched_eq)
  have e: "ex_sched = run_sched parse [OpAdd ''r1'' ''* * * * *'' ''A'', OpAdd ''r2'' ''0 0 * * *'' ''C'']"
    by (rule ex_sched_def)
  have es: "entries (cron ex_sched) =
       [\<lparr>EntryID = 1, EntrySchedule = [[Wildcard], [Wildcard], [Wildcard], [Wildcard], [Wildcard]], Job = (''r1'', ''A'')\<rparr>,
        \<lparr>EntryID = 2, EntrySchedule = [[Literal 0], [Literal 0], [Wildcard], [Wildcard], [Wildcard]], Job = (''r2'', ''C'')\<rparr>]"
    by (simp add: ex_sched_eq)
  have t2: "tasks ex_sched ''r2'' = Some \<lparr>ID = 2, Schedule = ''0 0 * * *'', Action = ''C''\<rparr>"
    by (simp add: ex_sched_eq)
  show ?thesis
    using RemoveTask_total_idempotent [of ex_sched "''unknown''" parse
        "[OpAdd ''r1'' ''* * * * *'' ''A'', OpAdd ''r2'' ''0 0 * * *'' ''C'']"]
      RemoveTask_total_idempotent [of ex_sched "''r1''" parse
        "[OpAdd ''r1'' ''* * * * *'' ''A'', OpAdd ''r2'' ''0 0 * * *'' ''C'']"]
      u r e
    by (simp add: es t2)
qed

text \<open>
  Claim C8: the schedule expression \<open>*/61 * * * *\<close> is rejected with
  \<open>InvalidExpression\<close> (61 exceeds the minute domain 0-59); \<open>AddTask\<close> with that
  schedule string returns the error and adds no entry to the task map.
\<close>
theorem AddTask_step_61_rejected:
  "parse ''*/61 * * * *'' = Inl (InvalidExpression ''*/61 * * * *'') \<and>
   fst (AddTask parse s key ''*/61 * * * *'' action) = Some (InvalidExpression ''*/61 * * * *'') \<and>
   tasks (snd (AddTask parse s key ''*/61 * * * *'' action)) key = None \<and>
   dom (tasks (snd (AddTask parse s key ''*/61 * * * *'' action))) = dom (tasks s) - {key}"
  by (auto simp: AddTask_eq parse_step_61 RemoveTask_tasks)

section \<open>The repository registry: claims\<close>

lemma ex_state_sched:
  "Scheduler ex_state =
     \<lparr>cron = \<lparr>entries =
         [\<lparr>EntryID = 1, EntrySchedule = [[Wildcard], [Wildcard], [Wildcard], [Wildcard], [Wildcard]],
           Job = (''/r1'', ''sync'')\<rparr>],
         nextID = 1\<rparr>,
       tasks = [''/r1'' \<mapsto> \<lparr>ID = 1, Schedule = ''* * * * *'', Action = ''sync''\<rparr>]\<rparr>"
  by (simp add: ex_state_def run_sched_def AddTask_eq parse_every_minute
      NewScheduler_def cron_New_def RemoveTask_def)

lemma ex_get: "getRepository ex_env ex_state ''/r1'' = Inr ex_repo"
  by (simp add: getRepository_def ex_env_def ex_state_def)

lemma ex_delete:
  "snd (HandleDeleteRepository ex_env ex_state ''/r1'') =
     ex_state\<lparr>Repositories := Map.empty, Scheduler := RemoveTask (Scheduler ex_state) ''/r1''\<rparr>"
  by (simp add: HandleDeleteRepository_def ex_get Let_def)
     (simp add: ex_env_def ex_repo_def ex_state_def)

text \<open>
  Claim C2, as stated, fails.  In \<open>ex_state\<close> a handler looks the repository
  \<open>/r1\<close> up, then \<open>HandleDeleteRepository\<close> deletes it (a lookup now yields
  \<open>NotFound\<close>), then the first handler reaches its re-insert step \<open>updateRepo\<close>: the
  repository is in the registry again.
\<close>
theorem reinsert_after_delete_counterexample:
  "getRepository ex_env ex_state ''/r1'' = Inr ex_repo \<and>
   getRepository ex_env (snd (HandleDeleteRepository ex_env ex_state ''/r1'')) ''/r1'' = Inl NotFound \<and>
   Repositories (updateRepo ex_env (snd (HandleDeleteRepository ex_env ex_state ''/r1'')) ex_repo) ''/r1''
     = Some \<lparr>Path = ''/r1'', RepoSchedule = ''* * * * *'', Status = ''clean''\<rparr> \<and>
   getRepository ex_env
       (updateRepo ex_env (snd (HandleDeleteRepository ex_env ex_state ''/r1'')) ex_repo) ''/r1''
     = Inr \<lparr>Path = ''/r1'', RepoSchedule = ''* * * * *'', Status = ''clean''\<rparr>"
  by (simp add: ex_get ex_delete)
     (simp add: getRepository_def updateRepo_def ex_env_def ex_repo_def)

text \<open>
  Claim C2, amended: the re-insert step of the mutate-safely pattern, \<open>updateRepo\<close>,
  makes no presence check.  When \<open>UpdateStatus\<close> succeeds it stores the repository
  under its path in whatever registry it finds and leaves every other path as it was,
  so after a delete that fell between the lookup and the re-insert the path is
  registered again and no \<open>NotFound\<close> is produced; when \<open>UpdateStatus\<close> fails the
  state is left as it is.  The scheduler is not touched: a task that the delete
  removed stays removed.
\<close>
theorem updateRepo_reinserts:
  "(UpdateStatus env repo = Inr repo' \<longrightarrow>
      Repositories (updateRepo env st repo) (Path repo') = Some repo' \<and>
      (\<forall>k. k \<noteq> Path repo' \<longrightarrow> Repositories (updateRepo env st repo) k = Repositories st k)) \<and>
   (UpdateStatus env repo = Inl err \<longrightarrow> updateRepo env st repo = st) \<and>
   Scheduler (updateRepo env st repo) = Scheduler st"
  by (simp add: updateRepo_def split: sum.splits)

text \<open>The amended claim C2 on the state that the delete of \<open>/r1\<close> leaves behind.\<close>
theorem updateRepo_reinserts_witness:
  "UpdateStatus ex_env ex_repo = Inr \<lparr>Path = ''/r1'', RepoSchedule = ''* * * * *'', Status = ''clean''\<rparr> \<and>
   Repositories (snd (HandleDeleteRepository ex_env ex_state ''/r1'')) ''/r1'' = None \<and>
   Repositories (updateRepo ex_env (snd (HandleDeleteRepository ex_env ex_state ''/r1'')) ex_repo) ''/r1''
     = Some \<lparr>Path = ''/r1'', RepoSchedule = ''* * * * *'', Status = ''clean''\<rparr> \<and>
   tasks (Scheduler (updateRepo ex_env (snd (HandleDeleteRepository ex_env ex_state ''/r1'')) ex_repo)) ''/r1''
     = None"
proof -
  have u: "UpdateStatus ex_env ex_repo = Inr \<lparr>Path = ''/r1'', RepoSchedule = ''* * * * *'', Status = ''clean''\<rparr>"
    by (simp add: ex_env_def ex_repo_def)
  show ?thesis
    using updateRepo_reinserts [of ex_env ex_repo
        "\<lparr>Path = ''/r1'', RepoSchedule = ''* * * * *'', Status = ''clean''\<rparr>"
        "snd (HandleDeleteRepository ex_env ex_state ''/r1'')" "Failure []"] u
    by (simp add: ex_delete RemoveTask_tasks)
qed

lemma registry_wf_updateRepo: "registry_wf st \<Longrightarrow> registry_wf (updateRepo env st repo)"
  by (auto simp: registry_wf_def updateRepo_def split: sum.splits)

lemma registry_wf_delete: "registry_wf st \<Longrightarrow> registry_wf (snd (HandleDeleteRepository env st path))"
  by (auto simp: registry_wf_def HandleDeleteRepository_def Let_def split: sum.splits option.splits if_splits)

lemma delete_state:
  "path \<noteq> [] \<Longrightarrow> getRepository env st path = Inr repo \<Longrightarrow>
   snd (HandleDeleteRepository env st path) =
     st\<lparr>Repositories := (Repositories st)(Path repo := None),
        Scheduler := RemoveTask (Scheduler st) (Path repo)\<rparr>"
  by (simp add: HandleDeleteRepository_def Let_def split: option.splits)

lemma getRepository_wf:
  "registry_wf st \<Longrightarrow> getRepository env st path = Inr repo \<Longrightarrow>
   Abs env path = Inr (Path repo) \<and> Repositories st (Path repo) = Some repo"
  by (auto simp: registry_wf_def getRepository_def split: sum.splits option.splits)

text \<open>
  Claim C6: \<open>HandleDeleteRepository\<close> with a non-empty path that names a registered
  repository, in a registry that holds every repository under its own path, removes
  that path from the registry (and no other), and removes the task registered under
  the same path in the scheduler; a later lookup of the path yields \<open>NotFound\<close>, and
  when the scheduler was reached from a new one by scheduler calls no cron entry of
  that key is left, so nothing fires for it any more.  This holds whether or not
  saving the configuration succeeds.
\<close>
theorem HandleDeleteRepository_removes:
  assumes "path \<noteq> []" and "registry_wf st" and "getRepository env st path = Inr repo"
  shows "Repositories (snd (HandleDeleteRepository env st path)) (Path repo) = None \<and>
         (\<forall>k. k \<noteq> Path repo \<longrightarrow>
            Repositories (snd (HandleDeleteRepository env st path)) k = Repositories st k) \<and>
         tasks (Scheduler (snd (HandleDeleteRepository env st path))) (Path repo) = None \<and>
         getRepository env (snd (HandleDeleteRepository env st path)) path = Inl NotFound \<and>
         (Scheduler st = run_sched prs ops \<longrightarrow>
            entries_of (Scheduler (snd (HandleDeleteRepository env st path))) (Path repo) = [])"
proof -
  have st': "snd (HandleDeleteRepository env st path) =
     st\<lparr>Repositories := (Repositories st)(Path repo := None),
        Scheduler := RemoveTask (Scheduler st) (Path repo)\<rparr>"
    using assms(1,3) by (rule delete_state)
  have a: "Abs env path = Inr (Path repo)"
    using assms(2,3) by (simp add: getRepository_wf)
  have e: "Scheduler st = run_sched prs ops \<Longrightarrow>
      entries_of (RemoveTask (Scheduler st) (Path repo)) (Path repo) = []"
  proof -
    assume "Scheduler st = run_sched prs ops"
    then have "sched_inv (Scheduler st)" by (simp add: sched_inv_run)
    then have "sched_inv (RemoveTask (Scheduler st) (Path repo))" by (rule sched_inv_RemoveTask)
    then show ?thesis by (rule inv_absent_entries) (simp add: RemoveTask_tasks)
  qed
  have r: "Repositories (snd (HandleDeleteRepository env st path)) (Path repo) = None"
    by (simp add: st')
  have o: "\<forall>k. k \<noteq> Path repo \<longrightarrow>
            Repositories (snd (HandleDeleteRepository env st path)) k = Repositories st k"
    by (simp add: st')
  have t: "tasks (Scheduler (snd (HandleDeleteRepository env st path))) (Path repo) = None"
    by (simp add: st' RemoveTask_tasks)
  have g: "getRepository env (snd (HandleDeleteRepository env st path)) path = Inl NotFound"
    by (simp add: st' getRepository_def a)
  have c: "Scheduler st = run_sched prs ops \<longrightarrow>
            entries_of (Scheduler (snd (HandleDeleteRepository env st path))) (Path repo) = []"
    using e by (simp add: st')
  from r o t g c show ?thesis by blast
qed

text \<open>Claim C6 at \<open>ex_state\<close> and the path \<open>/r1\<close>.\<close>
theorem HandleDeleteRepository_removes_witness:
  "getRepository ex_env ex_state ''/r1'' = Inr ex_repo \<and> Path ex_repo = ''/r1'' \<and>
   Repositories (snd (HandleDeleteRepository ex_env ex_state ''/r1'')) ''/r1'' = None \<and>
   tasks (Scheduler (snd (HandleDeleteRepository ex_env ex_state ''/r1''))) ''/r1'' = None \<and>
   getRepository ex_env (snd (HandleDeleteRepository ex_env ex_state ''/r1'')) ''/r1'' = Inl NotFound \<and>
   entries_of (Scheduler (snd (HandleDeleteRepository ex_env ex_state ''/r1''))) ''/r1'' = []"
proof -
  have wf: "registry_wf ex_state"
    by (simp add: registry_wf_def ex_state_def ex_repo_def)
  have p: "Path ex_repo = ''/r1''" by (simp add: ex_repo_def)
  have s: "Scheduler ex_state = run_sched parse [OpAdd ''/r1'' ''* * * * *'' ''sync'']"
    by (simp add: ex_state_def)
  have n: "''/r1'' \<noteq> []" by simp
  show ?thesis
    using HandleDeleteRepository_removes [OF n wf ex_get, of parse "[OpAdd ''/r1'' ''* * * * *'' ''sync'']"]
      ex_get p s
    by simp
qed

section \<open>Settings and comments: claims\<close>

lemma handleSettingsChange_Settings:
  "Settings (snd (handleSettingsChange env st newSettings)) = newSettings"
  by (simp add: handleSettingsChange_def Let_def split: option.splits sum.splits)

lemma handleSettingsChange_save_fails:
  assumes "fst (UpdateAgents env newSettings (Agents st)) = None"
    and "fst (UpdateWorkflows env newSettings (Workflows st)) = None"
    and "UserHomeDir env = Inr home"
    and "SaveConfig env (Join env home (ConfigPath env))
           (st\<lparr>Settings := newSettings,
               Agents := snd (UpdateAgents env newSettings (Agents st)),
               Workflows := snd (UpdateWorkflows env newSettings (Workflows st))\<rparr>) = Some err"
  shows "handleSettingsChange env st newSettings =
           (Some (Failure (''error saving config: '' @ Error err)),
            st\<lparr>Settings := newSettings,
               Agents := snd (UpdateAgents env newSettings (Agents st)),
               Workflows := snd (UpdateWorkflows env newSettings (Workflows st))\<rparr>)"
  using assms by (simp add: handleSettingsChange_def Let_def)

text \<open>
  Claim C7: after \<open>handleSettingsChange\<close>, and after \<open>HandleUpdateSettings\<close> with a
  decoded body, the in-memory settings are the new settings, whatever failed.  In
  particular, when the agents and workflows are rebuilt without error, the home
  directory is found and saving the configuration fails with \<open>err\<close>, the error
  \<open>error saving config: err\<close> is returned, the handler answers 500 with that text,
  and the settings keep the new value.
\<close>
theorem settings_not_rolled_back:
  "Settings (snd (handleSettingsChange env st newSettings)) = newSettings \<and>
   Settings (snd (HandleUpdateSettings env st (Inr newSettings))) = newSettings \<and>
   (fst (UpdateAgents env newSettings (Agents st)) = None \<and>
    fst (UpdateWorkflows env newSettings (Workflows st)) = None \<and>
    UserHomeDir env = Inr home \<and>
    SaveConfig env (Join env home (ConfigPath env))
      (st\<lparr>Settings := newSettings,
          Agents := snd (UpdateAgents env newSettings (Agents st)),
          Workflows := snd (UpdateWorkflows env newSettings (Workflows st))\<rparr>) = Some err
    \<longrightarrow>
      fst (handleSettingsChange env st newSettings) =
        Some (Failure (''error saving config: '' @ Error err)) \<and>
      fst (HandleUpdateSettings env st (Inr newSettings)) =
        http_Error (''error saving config: '' @ Error err) 500)"
proof -
  have a: "Settings (snd (handleSettingsChange env st newSettings)) = newSettings"
    by (rule handleSettingsChange_Settings)
  have b: "Settings (snd (HandleUpdateSettings env st (Inr newSettings))) = newSettings"
    using a by (cases "handleSettingsChange env st newSettings")
      (auto simp: HandleUpdateSettings_def split: option.splits)
  have c: "fst (UpdateAgents env newSettings (Agents st)) = None \<and>
    fst (UpdateWorkflows env newSettings (Workflows st)) = None \<and>
    UserHomeDir env = Inr home \<and>
    SaveConfig env (Join env home (ConfigPath env))
      (st\<lparr>Settings := newSettings,
          Agents := snd (UpdateAgents env newSettings (Agents st)),
          Workflows := snd (UpdateWorkflows env newSettings (Workflows st))\<rparr>) = Some err
    \<longrightarrow>
      fst (handleSettingsChange env st newSettings) =
        Some (Failure (''error saving config: '' @ Error err)) \<and>
      fst (HandleUpdateSettings env st (Inr newSettings)) =
        http_Error (''error saving config: '' @ Error err) 500"
    by (auto simp: handleSettingsChange_save_fails HandleUpdateSettings_def)
  from a b c show ?thesis by blast
qed

text \<open>Claim C7 in the environment whose save step fails.\<close>
theorem settings_not_rolled_back_witness:
  "Settings ex_state = ''old'' \<and>
   fst (handleSettingsChange ex_env_nosave ex_state ''new'') =
     Some (Failure ''error saving config: disk full'') \<and>
   fst (HandleUpdateSettings ex_env_nosave ex_state (Inr ''new'')) =
     http_Error ''error saving config: disk full'' 500 \<and>
   Settings (snd (HandleUpdateSettings ex_env_nosave ex_state (Inr ''new''))) = ''new''"
  using settings_not_rolled_back [of ex_env_nosave ex_state "''new''" "''/home/u''" "Failure ''disk full''"]
  by (simp add: ex_env_nosave_def ex_env_def) (simp add: ex_state_def)

text \<open>
  Claim C9, as stated, fails: a request whose resource type is neither \<open>issue\<close> nor
  \<open>pr\<close> and whose path names no registered repository is answered 404, not 201.
\<close>
theorem unknown_resource_type_counterexample:
  "ResourceType (ex_request\<lparr>ReqPath := ''/nowhere''\<rparr>) = ''discussion'' \<and>
   HandleAddLocalComment ex_env (\<lambda>r c. None) 0 ex_state (Inr (ex_request\<lparr>ReqPath := ''/nowhere''\<rparr>)) =
     (http_Error ''repository does not exist'' 404, [])"
  by (simp add: HandleAddLocalComment_def getRepository_def ex_env_def ex_state_def ex_request_def)

text \<open>
  Claim C9, amended: for every request to \<open>HandleAddLocalComment\<close> whose decoded
  resource type is neither \<open>issue\<close> nor \<open>pr\<close>, the handler invokes no operation of
  the remote provider; it answers 201 Created when the lookup of the request's path
  finds a repository, and 404 with the lookup's error when it does not.
\<close>
theorem unknown_resource_type:
  "ResourceType req \<noteq> ''issue'' \<and> ResourceType req \<noteq> ''pr'' \<longrightarrow>
     snd (HandleAddLocalComment env remote now st (Inr req)) = [] \<and>
     (\<forall>repo. getRepository env st (ReqPath req) = Inr repo \<longrightarrow>
        fst (HandleAddLocalComment env remote now st (Inr req)) = WriteHeader 201) \<and>
     (\<forall>err. getRepository env st (ReqPath req) = Inl err \<longrightarrow>
        fst (HandleAddLocalComment env remote now st (Inr req)) = http_Error (Error err) 404)"
  by (simp add: HandleAddLocalComment_def Let_def split: sum.splits)

text \<open>The amended claim C9 on a registered path, with a provider that would fail
  every call.\<close>
theorem unknown_resource_type_witness:
  "ResourceType ex_request \<noteq> ''issue'' \<and> ResourceType ex_request \<noteq> ''pr'' \<and>
   getRepository ex_env ex_state (ReqPath ex_request) = Inr ex_repo \<and>
   HandleAddLocalComment ex_env (\<lambda>r c. Some (Failure ''offline'')) 0 ex_state (Inr ex_request) =
     (\<lparr>Code = 201, Body = []\<rparr>, [])"
proof -
  have t: "ResourceType ex_request \<noteq> ''issue'' \<and> ResourceType ex_request \<noteq> ''pr''"
    by (simp add: ex_request_def)
  have g: "getRepository ex_env ex_state (ReqPath ex_request) = Inr ex_repo"
    by (simp add: ex_request_def ex_get)
  show ?thesis
    using unknown_resource_type [of ex_request ex_env "\<lambda>r c. Some (Failure ''offline'')" 0 ex_state] t g
    by (simp add: WriteHeader_def prod_eq_iff)
qed

section \<open>The log viewer: lemmas and claim\<close>


lemma accepted_id: "accepted env level search l = Some e \<Longrightarrow> LogID e \<noteq> []"
  by (auto simp: accepted_def Let_def split: option.splits if_splits)

lemma matching_ids: "e \<in> set (matching env level search items) \<Longrightarrow> LogID e \<noteq> []"
  by (auto simp: matching_def map_filter_def dest: accepted_id)

lemma read_loop_matching:
  "read_loop env level search items convs = Inr convs' \<Longrightarrow>
   convs' = foldl (\<lambda>cs e. group_entry e cs) convs (matching env level search items)"
proof (induction items arbitrary: convs)
  case Nil
  then show ?case by (simp add: matching_def map_filter_simps)
next
  case (Cons it items)
  show ?case
  proof (cases it)
    case (ReadFailure err)
    with Cons.prems show ?thesis
      by (simp add: matching_def map_filter_simps split: if_splits)
  next
    case (Line l)
    show ?thesis
    proof (cases "l = []")
      case True
      with Cons.prems Line show ?thesis by (simp add: matching_def map_filter_simps)
    next
      case False
      with Cons.prems Line have
        "read_loop env level search items
           (case accepted env level search l of None \<Rightarrow> convs | Some entry \<Rightarrow> group_entry entry convs)
         = Inr convs'" by simp
      then have "convs' = foldl (\<lambda>cs e. group_entry e cs)
           (case accepted env level search l of None \<Rightarrow> convs | Some entry \<Rightarrow> group_entry entry convs)
           (matching env level search items)"
        by (rule Cons.IH)
      with False Line show ?thesis
        by (simp add: matching_def map_filter_simps split: option.splits)
    qed
  qed
qed

lemma group_entry_keys: "fst ` set (group_entry e cs) = insert (LogID e) (fst ` set cs)"
proof (induction cs)
  case Nil
  show ?case by simp
next
  case (Cons p cs)
  obtain k c where p: "p = (k, c)" by (cases p)
  show ?case
  proof (cases "k = LogID e")
    case True
    then show ?thesis by (simp add: p insert_absorb2)
  next
    case False
    then show ?thesis using Cons.IH by (simp add: p insert_commute)
  qed
qed

lemma group_entry_distinct: "distinct (map fst cs) \<Longrightarrow> distinct (map fst (group_entry e cs))"
proof (induction cs)
  case Nil
  then show ?case by simp
next
  case (Cons p cs)
  obtain k c where p: "p = (k, c)" by (cases p)
  from Cons have d: "distinct (map fst (group_entry e cs))" and nk: "k \<notin> fst ` set cs"
    by (simp_all add: p)
  show ?case
  proof (cases "k = LogID e")
    case True
    with Cons.prems show ?thesis by (simp add: p)
  next
    case False
    with nk have "k \<notin> fst ` set (group_entry e cs)"
      by (simp add: group_entry_keys)
    with d False show ?thesis by (simp add: p)
  qed
qed

lemma group_entry_ConvID:
  "\<forall>p \<in> set cs. ConvID (snd p) = fst p \<Longrightarrow>
   \<forall>p \<in> set (group_entry e cs). ConvID (snd p) = fst p"
proof (induction cs)
  case Nil
  show ?case by simp
next
  case (Cons p cs)
  obtain k c where p: "p = (k, c)" by (cases p)
  from Cons.prems have head: "ConvID c = k" and tail: "\<forall>p \<in> set cs. ConvID (snd p) = fst p"
    by (simp_all add: p)
  from tail have "\<forall>p \<in> set (group_entry e cs). ConvID (snd p) = fst p" by (rule Cons.IH)
  with head tail show ?case by (simp add: p)
qed

lemma foldl_group_distinct:
  "distinct (map fst cs) \<Longrightarrow> distinct (map fst (foldl (\<lambda>cs e. group_entry e cs) cs es))"
  by (induction es arbitrary: cs) (simp_all add: group_entry_distinct)

lemma foldl_group_ConvID:
  "\<forall>p \<in> set cs. ConvID (snd p) = fst p \<Longrightarrow>
   \<forall>p \<in> set (foldl (\<lambda>cs e. group_entry e cs) cs es). ConvID (snd p) = fst p"
proof (induction es arbitrary: cs)
  case Nil
  then show ?case by simp
next
  case (Cons e es)
  from Cons.prems have "\<forall>p \<in> set (group_entry e cs). ConvID (snd p) = fst p"
    by (rule group_entry_ConvID)
  then have "\<forall>p \<in> set (foldl (\<lambda>cs e. group_entry e cs) (group_entry e cs) es). ConvID (snd p) = fst p"
    by (rule Cons.IH)
  then show ?case by simp
qed

lemma keys_foldl:
  "fst ` set (foldl (\<lambda>cs e. group_entry e cs) cs es) = fst ` set cs \<union> LogID ` set es"
proof (induction es arbitrary: cs)
  case Nil
  show ?case by simp
next
  case (Cons e es)
  have "fst ` set (foldl (\<lambda>cs e. group_entry e cs) (group_entry e cs) es) =
        fst ` set (group_entry e cs) \<union> LogID ` set es"
    by (rule Cons.IH)
  then show ?case by (simp add: group_entry_keys)
qed

lemma finish_ConvID: "ConvID (finish_conversation env c) = ConvID c"
  by (simp add: finish_conversation_def Let_def)

lemma sorted_conversations_ids:
  assumes "\<forall>xs. mset (rangeOrder env xs) = mset xs"
  shows "mset (map ConvID (sorted_conversations env convs)) = mset (map (\<lambda>p. ConvID (snd p)) convs)"
proof -
  have "mset (map ConvID (sorted_conversations env convs)) =
        image_mset ConvID (image_mset (finish_conversation env) (mset (rangeOrder env (map snd convs))))"
    by (simp add: sorted_conversations_def)
  also have "\<dots> = image_mset (\<lambda>c. ConvID (finish_conversation env c)) (mset (rangeOrder env (map snd convs)))"
    by (simp add: image_mset.compositionality comp_def)
  also have "\<dots> = image_mset ConvID (mset (rangeOrder env (map snd convs)))"
    by (simp add: finish_ConvID)
  also have "\<dots> = image_mset ConvID (mset (map snd convs))"
    using assms by simp
  also have "\<dots> = mset (map (\<lambda>p. ConvID (snd p)) convs)"
    by (simp add: image_mset.compositionality comp_def)
  finally show ?thesis .
qed

lemma apply_limit_subset: "set (apply_limit limit cs) \<subseteq> set cs"
  by (auto simp: apply_limit_def dest: in_set_takeD)

lemma apply_limit_length: "0 < limit \<Longrightarrow> int (length (apply_limit limit cs)) \<le> limit"
  by (auto simp: apply_limit_def)

lemma apply_limit_none: "limit \<le> 0 \<Longrightarrow> apply_limit limit cs = cs"
  by (simp add: apply_limit_def)

lemma parse_limit_default: "limitStr = [] \<or> Atoi limitStr = None \<Longrightarrow> parse_limit limitStr = 10"
  by (auto simp: parse_limit_def)

lemma parse_limit_parsed: "limitStr \<noteq> [] \<Longrightarrow> Atoi limitStr = Some n \<Longrightarrow> parse_limit limitStr = n"
  by (simp add: parse_limit_def)

lemma HandleLogs_conversations:
  assumes "conversations_of (HandleLogs env search level limitStr isAjax file) = Some cs"
  shows "\<exists>items. file = Inr items \<and>
           cs = apply_limit (parse_limit limitStr)
                  (sorted_conversations env
                     (foldl (\<lambda>cs e. group_entry e cs) [] (matching env level search items)))"
proof (cases "file")
  case (Inl err)
  with assms show ?thesis by (simp add: HandleLogs_def Let_def split: if_splits)
next
  case (Inr items)
  show ?thesis
  proof (cases "read_loop env level search items []")
    case (Inl err)
    with assms Inr show ?thesis by (simp add: HandleLogs_def Let_def split: if_splits)
  next
    case r: (Inr convs)
    then have c: "convs = foldl (\<lambda>cs e. group_entry e cs) [] (matching env level search items)"
      by (rule read_loop_matching)
    from assms Inr r have "cs = apply_limit (parse_limit limitStr) (sorted_conversations env convs)"
      by (simp add: HandleLogs_def Let_def split: if_splits)
    with c Inr show ?thesis by simp
  qed
qed

text \<open>
  Claim C10: whatever order the runtime gives to the map of conversations, the
  conversations in a response of \<open>HandleLogs\<close> all have a non-empty identifier; when
  the limit parameter is absent or is not a number that \<open>Atoi\<close> accepts, at most 10
  conversations are returned; and when the parsed limit is zero or negative nothing
  is cut off: the response holds exactly one conversation for each identifier of the
  matching entries.
\<close>
theorem HandleLogs_limit:
  assumes perm: "\<forall>xs. mset (rangeOrder env xs) = mset xs"
    and resp: "conversations_of (HandleLogs env search level limitStr isAjax file) = Some cs"
  shows "(\<forall>c \<in> set cs. ConvID c \<noteq> []) \<and>
         (limitStr = [] \<or> Atoi limitStr = None \<longrightarrow> length cs \<le> 10) \<and>
         (\<forall>n. limitStr \<noteq> [] \<and> Atoi limitStr = Some n \<and> n \<le> 0 \<longrightarrow>
            (\<exists>items. file = Inr items \<and> distinct (map ConvID cs) \<and>
               set (map ConvID cs) = set (map LogID (matching env level search items))))"
proof -
  from resp obtain items where f: "file = Inr items"
    and cs: "cs = apply_limit (parse_limit limitStr)
                  (sorted_conversations env
                     (foldl (\<lambda>cs e. group_entry e cs) [] (matching env level search items)))"
    using HandleLogs_conversations by blast
  define convs where "convs = foldl (\<lambda>cs e. group_entry e cs) [] (matching env level search items)"
  have d: "distinct (map fst convs)"
    unfolding convs_def by (rule foldl_group_distinct) simp
  have ck: "\<forall>p \<in> set convs. ConvID (snd p) = fst p"
    unfolding convs_def by (rule foldl_group_ConvID) simp
  have keys: "fst ` set convs = LogID ` set (matching env level search items)"
    unfolding convs_def by (simp add: keys_foldl)
  have me: "map (\<lambda>p. ConvID (snd p)) convs = map fst convs"
    using ck by simp
  have ms: "mset (map ConvID (sorted_conversations env convs)) = mset (map fst convs)"
    using sorted_conversations_ids[OF perm, of convs] by (simp only: me)
  have "set (map ConvID (sorted_conversations env convs)) = set (map fst convs)"
    using ms by (rule mset_eq_setD)
  then have ids: "set (map ConvID (sorted_conversations env convs)) =
             set (map LogID (matching env level search items))"
    using keys by simp
  have dist: "distinct (map ConvID (sorted_conversations env convs))"
    using mset_eq_imp_distinct_iff[OF ms] d by (simp only:)
  have a: "\<forall>c \<in> set cs. ConvID c \<noteq> []"
  proof
    fix c assume "c \<in> set cs"
    then have "c \<in> set (sorted_conversations env convs)"
      using apply_limit_subset cs convs_def by blast
    then have "ConvID c \<in> set (map ConvID (sorted_conversations env convs))" by simp
    then obtain e where "e \<in> set (matching env level search items)" "LogID e = ConvID c"
      unfolding ids by auto
    then show "ConvID c \<noteq> []" using matching_ids by metis
  qed
  have b: "limitStr = [] \<or> Atoi limitStr = None \<longrightarrow> length cs \<le> 10"
  proof
    assume "limitStr = [] \<or> Atoi limitStr = None"
    then have "parse_limit limitStr = 10" by (rule parse_limit_default)
    then have "int (length cs) \<le> 10" using apply_limit_length[of 10] cs by simp
    then show "length cs \<le> 10" by simp
  qed
  have c: "\<forall>n. limitStr \<noteq> [] \<and> Atoi limitStr = Some n \<and> n \<le> 0 \<longrightarrow>
            (\<exists>items. file = Inr items \<and> distinct (map ConvID cs) \<and>
               set (map ConvID cs) = set (map LogID (matching env level search items)))"
  proof (intro allI impI)
    fix n assume h: "limitStr \<noteq> [] \<and> Atoi limitStr = Some n \<and> n \<le> 0"
    then have "parse_limit limitStr = n" by (simp add: parse_limit_parsed)
    with h have "cs = sorted_conversations env convs"
      using cs convs_def by (simp add: apply_limit_none)
    with f ids dist show "\<exists>items. file = Inr items \<and> distinct (map ConvID cs) \<and>
               set (map ConvID cs) = set (map LogID (matching env level search items))"
      by simp
  qed
  from a b c show ?thesis by blast
qed


lemma Atoi_max: "Atoi ''9223372036854775807'' = Some 9223372036854775807"
  by (simp add: Atoi_def is_digit_def digits_val_def digit_val_def)

lemma Atoi_overflow: "Atoi ''9223372036854775808'' = None"
  by (simp add: Atoi_def is_digit_def digits_val_def digit_val_def)

lemma Atoi_min: "Atoi ''-9223372036854775808'' = Some (- 9223372036854775808)"
  by (simp add: Atoi_def is_digit_def digits_val_def digit_val_def)

lemma Atoi_zero: "Atoi ''0'' = Some 0"
  by (simp add: Atoi_def is_digit_def digits_val_def digit_val_def)

lemma Atoi_ten: "Atoi ''ten'' = None"
  by (simp add: Atoi_def is_digit_def)

lemma ex_perm: "\<forall>xs. mset (rangeOrder ex_log_env xs) = mset xs"
  by (simp add: ex_log_env_def)

lemma ex_accepted_1: "accepted ex_log_env [] [] ''a<1>'' =
  Some \<lparr>Level = ''info'', TimeStamp = 3, Time = 3, Logger = [], Caller = [],
        Message = ''&lt;1&gt;'', Content = [], Model = [], ErrorText = [], LogID = ''a''\<rparr>"
  by (simp add: accepted_def ex_log_env_def ex_unmarshal_def Let_def maxLineLength_def
      EscapeString_def escape_char_def)

lemma ex_accepted_2: "accepted ex_log_env [] [] ''-no id'' = None"
  by (simp add: accepted_def ex_log_env_def ex_unmarshal_def Let_def maxLineLength_def)

lemma ex_accepted_3: "accepted ex_log_env [] [] ''bsecond'' =
  Some \<lparr>Level = ''info'', TimeStamp = 6, Time = 6, Logger = [], Caller = [],
        Message = ''second'', Content = [], Model = [], ErrorText = [], LogID = ''b''\<rparr>"
  by (simp add: accepted_def ex_log_env_def ex_unmarshal_def Let_def maxLineLength_def
      EscapeString_def escape_char_def)

lemma ex_accepted_4: "accepted ex_log_env [] [] ''xbad'' = None"
  by (simp add: accepted_def ex_log_env_def ex_unmarshal_def)

lemma ex_accepted_5: "accepted ex_log_env [] [] ''ab'' =
  Some \<lparr>Level = ''info'', TimeStamp = 1, Time = 1, Logger = [], Caller = [],
        Message = ''b'', Content = [], Model = [], ErrorText = [], LogID = ''a''\<rparr>"
  by (simp add: accepted_def ex_log_env_def ex_unmarshal_def Let_def maxLineLength_def
      EscapeString_def escape_char_def)

lemma ex_read:
  "read_loop ex_log_env [] [] ex_log_file [] =
     Inr [(''a'', \<lparr>ConvID = ''a'', StartTime = 3,
             Messages = [\<lparr>Level = ''info'', TimeStamp = 3, Time = 3, Logger = [], Caller = [],
                    Message = ''&lt;1&gt;'', Content = [], Model = [], ErrorText = [], LogID = ''a''\<rparr>,
                   \<lparr>Level = ''info'', TimeStamp = 1, Time = 1, Logger = [], Caller = [],
                    Message = ''b'', Content = [], Model = [], ErrorText = [], LogID = ''a''\<rparr>],
             MessageCount = 2, ConvStatus = []\<rparr>),
          (''b'', \<lparr>ConvID = ''b'', StartTime = 6,
             Messages = [\<lparr>Level = ''info'', TimeStamp = 6, Time = 6, Logger = [], Caller = [],
                    Message = ''second'', Content = [], Model = [], ErrorText = [], LogID = ''b''\<rparr>],
             MessageCount = 1, ConvStatus = []\<rparr>)]"
  by (simp add: ex_log_file_def ex_accepted_1 ex_accepted_2 ex_accepted_3 ex_accepted_4 ex_accepted_5)

lemma ex_sorted:
  "sorted_conversations ex_log_env
     [(''a'', \<lparr>ConvID = ''a'', StartTime = 3,
             Messages = [\<lparr>Level = ''info'', TimeStamp = 3, Time = 3, Logger = [], Caller = [],
                    Message = ''&lt;1&gt;'', Content = [], Model = [], ErrorText = [], LogID = ''a''\<rparr>,
                   \<lparr>Level = ''info'', TimeStamp = 1, Time = 1, Logger = [], Caller = [],
                    Message = ''b'', Content = [], Model = [], ErrorText = [], LogID = ''a''\<rparr>],
             MessageCount = 2, ConvStatus = []\<rparr>),
          (''b'', \<lparr>ConvID = ''b'', StartTime = 6,
             Messages = [\<lparr>Level = ''info'', TimeStamp = 6, Time = 6, Logger = [], Caller = [],
                    Message = ''second'', Content = [], Model = [], ErrorText = [], LogID = ''b''\<rparr>],
             MessageCount = 1, ConvStatus = []\<rparr>)] = ex_conversations"
  by (simp add: sorted_conversations_def finish_conversation_def ex_log_env_def ex_conversations_def Let_def)

lemma ex_logs_unlimited:
  "conversations_of (HandleLogs ex_log_env [] [] ''0'' True (Inr ex_log_file)) = Some ex_conversations"
  by (simp add: HandleLogs_def Let_def ex_read ex_sorted parse_limit_def Atoi_zero apply_limit_def)

lemma ex_logs_default:
  "conversations_of (HandleLogs ex_log_env [] [] ''ten'' False (Inr ex_log_file)) = Some ex_conversations"
  by (simp add: HandleLogs_def Let_def ex_read ex_sorted parse_limit_def Atoi_ten apply_limit_def)
     (simp add: ex_conversations_def)

lemma ex_matching: "map LogID (matching ex_log_env [] [] ex_log_file) = [''a'', ''b'', ''a'']"
  by (simp add: matching_def ex_log_file_def map_filter_simps
      ex_accepted_1 ex_accepted_2 ex_accepted_3 ex_accepted_4 ex_accepted_5)

text \<open>Claim C10 on a log of five lines, with the limits \<open>0\<close> and \<open>ten\<close>.\<close>
theorem HandleLogs_limit_witness:
  "conversations_of (HandleLogs ex_log_env [] [] ''0'' True (Inr ex_log_file)) = Some ex_conversations \<and>
   Atoi ''0'' = Some 0 \<and>
   map ConvID ex_conversations = [''b'', ''a''] \<and>
   set (map ConvID ex_conversations) = set (map LogID (matching ex_log_env [] [] ex_log_file)) \<and>
   conversations_of (HandleLogs ex_log_env [] [] ''ten'' False (Inr ex_log_file)) = Some ex_conversations \<and>
   Atoi ''ten'' = None \<and>
   length ex_conversations \<le> 10"
  using HandleLogs_limit [OF ex_perm ex_logs_unlimited] HandleLogs_limit [OF ex_perm ex_logs_default]
    ex_logs_unlimited ex_logs_default Atoi_zero Atoi_ten
  by (simp add: ex_conversations_def)

end
